theory Spec2Isabelle
  imports Complex_Main "HOL-Library.Word"
begin

unbundle bit_operations_syntax

section \<open>ComediHandler: the sample source (src/c++/ComediHandler.cpp)\<close>

text \<open>
  The handler talks to a data acquisition device through comedilib and the \<^verbatim>\<open>read\<close>
  system call. What the library and the kernel answer is the environment of the model: it
  is given as data, the handler's own code is translated line by line.

  C types: \<^verbatim>\<open>lsampl_t\<close> is a 32-bit unsigned integer, \<^verbatim>\<open>sampl_t\<close> a 16-bit one, \<^verbatim>\<open>int\<close>
  is 32 bits wide in two's complement (read with \<^term>\<open>sint\<close>). A \<^verbatim>\<open>double\<close> is
  idealised as a \<^typ>\<open>real\<close>; no statement below depends on rounding.
\<close>

type_synonym lsampl_t = "32 word"
type_synonym sampl_t = "16 word"
type_synonym c_int = "32 word"
type_synonym byte = "8 word"

text \<open>\<^verbatim>\<open>comedi_range\<close> of comedilib: the physical values of the ends of the ADC range.\<close>

record comedi_range =
  range_min :: real
  range_max :: real

text \<open>The fields of \<^verbatim>\<open>comedi_cmd\<close> that the handler reads or writes.\<close>

record comedi_cmd =
  scan_begin_src :: "32 word"
  scan_begin_arg :: "32 word"
  convert_src :: "32 word"
  convert_arg :: "32 word"
  stop_src :: "32 word"
  stop_arg :: "32 word"
  cmd_chanlist :: "32 word list"

text \<open>Constants of \<^verbatim>\<open>comedi.h\<close>.\<close>

definition TRIG_NONE :: "32 word" where
  "TRIG_NONE = 0x00000001"

definition TRIG_TIMER :: "32 word" where
  "TRIG_TIMER = 0x00000010"

definition SDF_LSAMPL :: "32 word" where
  "SDF_LSAMPL = 0x10000000"

definition AREF_GROUND :: "32 word" where
  "AREF_GROUND = 0x00"

definition CR_PACK :: "32 word \<Rightarrow> 32 word \<Rightarrow> 32 word \<Rightarrow> 32 word" where
  "CR_PACK chan rng aref =
     (push_bit 24 (aref AND 0x3) OR push_bit 16 (rng AND 0xff)) OR chan"

text \<open>
  The macros of \<^verbatim>\<open>common.h\<close> used by the handler. The header is not among the sources, so
  their values are parameters of the model.
\<close>

record common_h =
  COMEDI_NUM_CHANNEL :: nat
  COMEDI_RANGE_ID :: "32 word"

text \<open>
  A call either returns a value or ends the process through \<^verbatim>\<open>exit(code)\<close>.
\<close>

datatype 'a outcome = Exit int | Return 'a

text \<open>The members of the class.\<close>

record ComediHandler =
  adChannel :: nat
  maxdata :: lsampl_t
  crange :: comedi_range
  numChannels :: int
  chanlist :: "32 word list"
  comediCommand :: comedi_cmd
  sampling_rate :: real
  sigmaBoard :: bool
  readSize :: nat

subsection \<open>The constructor\<close>

text \<open>
  What comedilib answers while the constructor runs: whether \<^verbatim>\<open>comedi_open\<close> gave a device,
  the values of \<^verbatim>\<open>comedi_get_maxdata\<close>, \<^verbatim>\<open>comedi_get_range\<close> and \<^verbatim>\<open>comedi_get_n_channels\<close>,
  the return value and the command filled in by \<^verbatim>\<open>comedi_get_cmd_generic_timed\<close>, the
  driver's \<^verbatim>\<open>comedi_command_test\<close> (return value and adjusted command) and
  \<^verbatim>\<open>comedi_command\<close>, and the subdevice flags. \<^verbatim>\<open>uninit_rate\<close> is the value that the
  member \<^verbatim>\<open>sampling_rate\<close> holds before the constructor assigns it.
\<close>

record comedi_env =
  open_ok :: bool
  dev_maxdata :: lsampl_t
  dev_range :: comedi_range
  dev_n_channels :: int
  timed_ret :: int
  timed_cmd :: comedi_cmd
  command_test :: "comedi_cmd \<Rightarrow> int \<times> comedi_cmd"
  command_ret :: "comedi_cmd \<Rightarrow> int"
  subdev_flags :: "32 word"
  uninit_rate :: real

text \<open>The loop that fills \<^verbatim>\<open>chanlist\<close>: entry \<open>i\<close> is \<^verbatim>\<open>CR_PACK(i, COMEDI_RANGE_ID, AREF_GROUND)\<close>.\<close>

definition setup_chanlist :: "common_h \<Rightarrow> nat \<Rightarrow> 32 word list" where
  "setup_chanlist c n = map (\<lambda>i. CR_PACK (of_nat i) (COMEDI_RANGE_ID c) AREF_GROUND) [0..<n]"

text \<open>
  Lines 102 to 115: the rate when the timing is done channel by channel, overwritten by
  the rate when it is done scan by scan. \<open>r0\<close> is the value of the member before the
  first assignment. (With no channel at all the first quotient is infinite in C and 0
  here; no statement below depends on the value.)
\<close>

definition init_sampling_rate :: "real \<Rightarrow> comedi_cmd \<Rightarrow> int \<Rightarrow> real" where
  "init_sampling_rate r0 cmd n =
     (let r1 = (if convert_src cmd = TRIG_TIMER \<and> convert_arg cmd \<noteq> 0
                then (1000000000 / real (unat (convert_arg cmd))) / real_of_int n
                else r0)
      in if scan_begin_src cmd = TRIG_TIMER \<and> scan_begin_arg cmd \<noteq> 0
         then 1000000000 / real (unat (scan_begin_arg cmd))
         else r1)"

text \<open>
  The constructor, with every \<^verbatim>\<open>exit\<close> of the source as a branch, in the order of the
  source. The log lines print values and do not influence the control flow; they are left
  out here (\<^verbatim>\<open>comedi_get_range\<close> is taken to return a range, as the log line that prints it
  takes for granted).
\<close>

definition ComediHandler_ctor :: "common_h \<Rightarrow> comedi_env \<Rightarrow> ComediHandler outcome" where
  "ComediHandler_ctor c env =
     (if \<not> open_ok env then Exit 1
      else if dev_n_channels env < int (COMEDI_NUM_CHANNEL c) then Exit (- 1)
      else
        let n = COMEDI_NUM_CHANNEL c;
            chl = setup_chanlist c n
        in if timed_ret env < 0 then Exit (- 1)
           else
             let cmd0 = (timed_cmd env)\<lparr>cmd_chanlist := chl, stop_src := TRIG_NONE, stop_arg := 0\<rparr>;
                 t1 = command_test env cmd0
             in if fst t1 < 0 then Exit (- 1)
                else
                  let t2 = command_test env (snd t1)
                  in if fst t2 < 0 then Exit (- 1)
                     else
                       let cmd = snd t2;
                           rate = init_sampling_rate (uninit_rate env) cmd (int n)
                       in if command_ret env cmd < 0 then Exit 1
                          else
                            let sigma = (subdev_flags env AND SDF_LSAMPL \<noteq> 0)
                            in Return \<lparr>adChannel = 0,
                                       maxdata = dev_maxdata env,
                                       crange = dev_range env,
                                       numChannels = int n,
                                       chanlist = chl,
                                       comediCommand = cmd,
                                       sampling_rate = rate,
                                       sigmaBoard = sigma,
                                       readSize = (if sigma then 4 * n else 2 * n)\<rparr>)"

subsection \<open>The device as the handler sees it after construction\<close>

text \<open>
  One answer of \<^verbatim>\<open>read(fd, buffer, readSize)\<close>: its return value and the contents of the
  caller's buffer when it returns (byte \<open>i\<close> of the array, for every \<open>i\<close>; the bytes that
  the call did not write are whatever the array held).
\<close>

record read_result =
  read_ret :: int
  read_buf :: "nat \<Rightarrow> byte"

text \<open>
  The device: the answer to the \<open>k\<close>-th \<^verbatim>\<open>read\<close> for every \<open>k\<close>, the number of reads done so
  far, the sizes that were asked for, what \<^verbatim>\<open>comedi_get_buffer_contents\<close> reports at the
  moment, and the error lines written to the log.
\<close>

record device =
  answers :: "nat \<Rightarrow> read_result"
  nreads :: nat
  requested :: "nat list"
  buffer_contents :: int
  error_log :: "string list"

text \<open>
  \<^verbatim>\<open>((lsampl_t *) buffer)[i]\<close> and \<^verbatim>\<open>((sampl_t *) buffer)[i]\<close> on a little-endian machine.
\<close>

definition lsampl_at :: "(nat \<Rightarrow> byte) \<Rightarrow> nat \<Rightarrow> lsampl_t" where
  "lsampl_at b i =
     ucast (b (4 * i)) OR push_bit 8 (ucast (b (4 * i + 1)))
       OR push_bit 16 (ucast (b (4 * i + 2))) OR push_bit 24 (ucast (b (4 * i + 3)))"

definition sampl_at :: "(nat \<Rightarrow> byte) \<Rightarrow> nat \<Rightarrow> sampl_t" where
  "sampl_at b i = ucast (b (2 * i)) OR push_bit 8 (ucast (b (2 * i + 1)))"

definition sys_read :: "device \<Rightarrow> nat \<Rightarrow> read_result \<times> device" where
  "sys_read d n =
     (answers d (nreads d), d\<lparr>nreads := Suc (nreads d), requested := requested d @ [n]\<rparr>)"

subsection \<open>The methods\<close>

definition getSamplingRate :: "ComediHandler \<Rightarrow> device \<Rightarrow> real outcome \<times> ComediHandler \<times> device" where
  "getSamplingRate h d = (Return (sampling_rate h), h, d)"

definition getBufferContents :: "ComediHandler \<Rightarrow> device \<Rightarrow> int outcome \<times> ComediHandler \<times> device" where
  "getBufferContents h d = (Return (buffer_contents d), h, d)"

definition readRawSample :: "ComediHandler \<Rightarrow> device \<Rightarrow> c_int outcome \<times> ComediHandler \<times> device" where
  "readRawSample h d =
     (let (r, d') = sys_read d (readSize h)
      in if read_ret r = 0
         then (Exit (- 1), h,
               d'\<lparr>error_log := error_log d' @ [''Error reading from device: end of acquisition!'']\<rparr>)
         else
           let v = (if sigmaBoard h
                    then lsampl_at (read_buf r) (adChannel h)
                    else ucast (sampl_at (read_buf r) (adChannel h)))
           in (Return v, h, d'))"

definition getRawSample :: "ComediHandler \<Rightarrow> device \<Rightarrow> c_int outcome \<times> ComediHandler \<times> device" where
  "getRawSample h d = readRawSample h d"

text \<open>
  \<^verbatim>\<open>comedi_to_phys\<close> is a function of comedilib; it is the parameter \<open>to_phys\<close>.
\<close>

definition getVoltageSample ::
  "(lsampl_t \<Rightarrow> comedi_range \<Rightarrow> lsampl_t \<Rightarrow> 'v) \<Rightarrow> ComediHandler \<Rightarrow> device
     \<Rightarrow> 'v outcome \<times> ComediHandler \<times> device" where
  "getVoltageSample to_phys h d =
     (case readRawSample h d of
        (Exit c, h', d') \<Rightarrow> (Exit c, h', d')
      | (Return v, h', d') \<Rightarrow> (Return (to_phys v (crange h') (maxdata h')), h', d'))"

text \<open>
  A client of the handler calls its public methods one after the other; the first
  \<^verbatim>\<open>exit\<close> ends the run.
\<close>

datatype handler_op = OpGetSamplingRate | OpGetBufferContents | OpGetRawSample | OpGetVoltageSample

datatype 'v op_value = RateValue real | CountValue int | RawValue c_int | VoltageValue 'v

definition map_outcome :: "('a \<Rightarrow> 'b) \<Rightarrow> 'a outcome \<times> ComediHandler \<times> device
    \<Rightarrow> 'b outcome \<times> ComediHandler \<times> device" where
  "map_outcome f r =
     (case r of (Exit c, h, d) \<Rightarrow> (Exit c, h, d) | (Return v, h, d) \<Rightarrow> (Return (f v), h, d))"

fun call_op :: "(lsampl_t \<Rightarrow> comedi_range \<Rightarrow> lsampl_t \<Rightarrow> 'v) \<Rightarrow> handler_op \<Rightarrow> ComediHandler \<Rightarrow> device
    \<Rightarrow> 'v op_value outcome \<times> ComediHandler \<times> device" where
  "call_op to_phys OpGetSamplingRate h d = map_outcome RateValue (getSamplingRate h d)"
| "call_op to_phys OpGetBufferContents h d = map_outcome CountValue (getBufferContents h d)"
| "call_op to_phys OpGetRawSample h d = map_outcome RawValue (getRawSample h d)"
| "call_op to_phys OpGetVoltageSample h d = map_outcome VoltageValue (getVoltageSample to_phys h d)"

fun run_ops :: "(lsampl_t \<Rightarrow> comedi_range \<Rightarrow> lsampl_t \<Rightarrow> 'v) \<Rightarrow> handler_op list \<Rightarrow> ComediHandler
    \<Rightarrow> device \<Rightarrow> 'v op_value list outcome \<times> ComediHandler \<times> device" where
  "run_ops to_phys [] h d = (Return [], h, d)"
| "run_ops to_phys (x # xs) h d =
     (case call_op to_phys x h d of
        (Exit c, h', d') \<Rightarrow> (Exit c, h', d')
      | (Return v, h', d') \<Rightarrow> map_outcome (\<lambda>vs. v # vs) (run_ops to_phys xs h' d'))"

section \<open>Window: the presentation layer (src/c++/Window.cpp)\<close>

text \<open>
  The widgets that the heart-rate notification writes to. Both are \<^verbatim>\<open>QLabel\<close>s.
\<close>

datatype widget = lheartRate | lHRvalAV

text \<open>The methods of \<^verbatim>\<open>Processing\<close> that the button handlers call on \<^verbatim>\<open>process\<close>.\<close>

datatype Processing_call = startMeasurement | stopMeasurement

text \<open>
  A call posted with \<^verbatim>\<open>QMetaObject::invokeMethod(obj, member, Qt::QueuedConnection, arg)\<close>:
  it runs later, in the thread of the user interface.
\<close>

record queued_call =
  qc_object :: widget
  qc_member :: string
  qc_arg :: string

text \<open>
  The part of the window that the modelled handlers touch: the calls made on \<^verbatim>\<open>process\<close>
  so far, the posted calls that are not delivered yet, and the text each label shows.
\<close>

record Window =
  process_calls :: "Processing_call list"
  posted :: "queued_call list"
  label_text :: "widget \<Rightarrow> string"

text \<open>
  \<^verbatim>\<open>invokeMethod\<close> answers whether the member can be invoked and, if so, posts the call.
  Of the slots of \<^verbatim>\<open>QLabel\<close> the window invokes \<^verbatim>\<open>setText(QString)\<close> only.
\<close>

definition invokable :: "widget \<Rightarrow> string \<Rightarrow> bool" where
  "invokable obj member = (member = ''setText'')"

definition invokeMethod :: "widget \<Rightarrow> string \<Rightarrow> string \<Rightarrow> Window \<Rightarrow> bool \<times> Window" where
  "invokeMethod obj member arg w =
     (if invokable obj member
      then (True, w\<lparr>posted := posted w @ [\<lparr>qc_object = obj, qc_member = member, qc_arg = arg\<rparr>]\<rparr>)
      else (False, w))"

text \<open>A handler runs to its end or stops at a failed \<^verbatim>\<open>assert\<close>.\<close>

datatype 'a asserted = AssertionFailed | Done 'a

text \<open>
  \<^verbatim>\<open>Window::eHeartRate\<close>. \<open>number_f0\<close> stands for Qt's \<^verbatim>\<open>QString::number(x, 'f', 0)\<close>.
\<close>

definition eHeartRate :: "('d \<Rightarrow> string) \<Rightarrow> 'd \<Rightarrow> Window \<Rightarrow> unit asserted \<times> Window" where
  "eHeartRate number_f0 heartRate w =
     (let (bOk, w1) = invokeMethod lheartRate ''setText''
                        (''Current heart rate:<br><b>'' @ number_f0 heartRate @ ''</b>'') w
      in if \<not> bOk then (AssertionFailed, w1)
         else
           let (bOk2, w2) = invokeMethod lHRvalAV ''setText''
                              (number_f0 heartRate @ '' beats/min'') w1
           in if \<not> bOk2 then (AssertionFailed, w2) else (Done (), w2))"

text \<open>
  The event loop of the user interface delivers the posted calls in the order in which
  they were posted; \<^verbatim>\<open>setText\<close> replaces the text of its label.
\<close>

definition deliver :: "Window \<Rightarrow> queued_call \<Rightarrow> Window" where
  "deliver w q =
     (if qc_member q = ''setText''
      then w\<lparr>label_text := (label_text w)(qc_object q := qc_arg q)\<rparr>
      else w)"

definition processEvents :: "Window \<Rightarrow> Window" where
  "processEvents w = (foldl deliver w (posted w))\<lparr>posted := []\<rparr>"

text \<open>The handlers of the buttons Start, Cancel and Reset.\<close>

definition clkBtnStart :: "Window \<Rightarrow> Window" where
  "clkBtnStart w = w\<lparr>process_calls := process_calls w @ [startMeasurement]\<rparr>"

definition clkBtnCancel :: "Window \<Rightarrow> Window" where
  "clkBtnCancel w = w\<lparr>process_calls := process_calls w @ [stopMeasurement]\<rparr>"

definition clkBtnReset :: "Window \<Rightarrow> Window" where
  "clkBtnReset w = w\<lparr>process_calls := process_calls w @ [stopMeasurement]\<rparr>"

section \<open>The measurement engine\<close>

text \<open>
  The estimation algorithm and the state machine of the measurement are code of the
  repository that is not among the sources (the window only calls into it). They are
  modelled from the specification, sections 3, 4.4 and 4.5. A \<^verbatim>\<open>float\<close> is a \<^typ>\<open>real\<close>.
\<close>

text \<open>
  Modelled from the spec: the Envelope Point of section 3, one per detected oscillation
  (the engine's data types are missing from the sources).
\<close>

record EnvelopePoint =
  cuffPressure :: real
  oscillationAmplitude :: real

text \<open>
  Modelled from the spec: the MeasurementConfig of section 3 (missing from the sources).
  The ratios lie in \<open>(0,1)\<close> and \<open>minNbrPeaks\<close> is at least 1; the setters enforce it,
  the record does not.
\<close>

record MeasurementConfig =
  ratioSBP :: real
  ratioDBP :: real
  minNbrPeaks :: int
  pumpUpTarget :: real

text \<open>Modelled from the spec: the MeasurementResult of section 3 (missing from the sources).\<close>

record MeasurementResult =
  MAP :: real
  SBP :: real
  DBP :: real

text \<open>
  Modelled from the spec: the two recoverable estimation errors of section 7 (missing from
  the sources).
\<close>

datatype EstimationError = InsufficientData | RatioCrossingNotFound

text \<open>
  Modelled from the spec: the argmax over amplitude of step 2 of the estimation algorithm
  (the estimator's source is missing). The scan runs through the sequence in the order of
  deflation; a later point replaces the best one only when its amplitude is strictly
  larger, so the first occurrence wins a tie.
\<close>

fun scanMax :: "nat \<Rightarrow> real \<Rightarrow> nat \<Rightarrow> EnvelopePoint list \<Rightarrow> nat" where
  "scanMax best bestAmp i [] = best"
| "scanMax best bestAmp i (p # ps) =
     (if bestAmp < oscillationAmplitude p
      then scanMax i (oscillationAmplitude p) (Suc i) ps
      else scanMax best bestAmp (Suc i) ps)"

text \<open>
  Modelled from the spec: the position of the point of maximum amplitude in the sequence
  (the estimator's source is missing); the scan starts with the first point as the best
  one. An empty sequence has no such point.
\<close>

definition indexOfMaxAmplitude :: "EnvelopePoint list \<Rightarrow> nat option" where
  "indexOfMaxAmplitude env =
     (case env of [] \<Rightarrow> None | p # ps \<Rightarrow> Some (scanMax 0 (oscillationAmplitude p) 1 ps))"

text \<open>
  Modelled from the spec: the estimation algorithm of section 4.5 (the estimator's source
  is missing). The sequence is in the order of deflation, so the points at or above MAP
  in pressure are those up to the maximum, scanned backwards from it, and the points at
  or below MAP are those from the maximum on. An empty sequence has no maximum; it is
  reported as insufficient data, as section 4.3 asks.
\<close>

definition estimate :: "MeasurementConfig \<Rightarrow> EnvelopePoint list \<Rightarrow> EstimationError + MeasurementResult" where
  "estimate cfg env =
     (if int (length env) < minNbrPeaks cfg then Inl InsufficientData
      else case indexOfMaxAmplitude env of
        None \<Rightarrow> Inl InsufficientData
      | Some m \<Rightarrow>
          let maxAmplitude = oscillationAmplitude (env ! m);
              targetSBP = ratioSBP cfg * maxAmplitude;
              targetDBP = ratioDBP cfg * maxAmplitude
          in (case (find (\<lambda>p. oscillationAmplitude p \<le> targetSBP) (rev (take (Suc m) env)),
                    find (\<lambda>p. oscillationAmplitude p \<le> targetDBP) (drop m env)) of
                (Some s, Some d) \<Rightarrow>
                  Inr \<lparr>MAP = cuffPressure (env ! m), SBP = cuffPressure s, DBP = cuffPressure d\<rparr>
              | _ \<Rightarrow> Inl RatioCrossingNotFound))"

text \<open>
  Modelled from the spec: the invariant of the Envelope Point sequence in section 3, which
  is ordered by decreasing cuff pressure (the deflation only falls).
\<close>

definition deflationOrdered :: "EnvelopePoint list \<Rightarrow> bool" where
  "deflationOrdered env = sorted_wrt (\<lambda>p q. cuffPressure q \<le> cuffPressure p) env"

subsection \<open>The state machine\<close>

text \<open>Modelled from the spec: the Phase of section 3 (the engine's source is missing).\<close>

datatype Phase = Idle | WaitInflate | Deflating | WaitEmptyCuff | Result

text \<open>
  Modelled from the spec: the actions of the user in section 4.4: start, cancel and reset
  (the engine's source is missing).
\<close>

datatype UserAction = StartMeasurement | CancelMeasurement | ResetMeasurement

text \<open>Modelled from the spec: the FilteredPair of section 3 (the engine's source is missing).\<close>

record FilteredPair =
  lowPass :: real
  highPass :: real

text \<open>
  Modelled from the spec: one input of the state machine (the engine's source is missing): an iteration of the acquisition loop, with the filtered
  pair of the sample and the envelope point of the oscillation that the detector confirmed
  in this iteration, if any; or an action of the user.
\<close>

datatype Input = Sample FilteredPair "EnvelopePoint option" | User UserAction

text \<open>
  Modelled from the spec: the notifications \<^verbatim>\<open>onPhaseChanged\<close> and \<^verbatim>\<open>onResult\<close> of section 6
  (the engine's source is missing).
\<close>

datatype Notification =
  PhaseChanged Phase
| ResultComputed "EstimationError + MeasurementResult"

text \<open>
  Modelled from the spec: the two thresholds of section 4.4 that the configuration does not name: the near-empty
  pressure that ends the deflation and the pressure of an empty cuff.
\<close>

record Thresholds =
  nearEmpty :: real
  emptyCuff :: real

text \<open>
  Modelled from the spec: the state of the engine (its source is missing): the phase, the
  envelope collected in the deflation and the result of the last cycle.
\<close>

record Engine =
  phase :: Phase
  envelope :: "EnvelopePoint list"
  result :: "(EstimationError + MeasurementResult) option"

text \<open>
  Modelled from the spec: a transition into a phase, with its one phase-change notification
  (the engine's source is missing).
\<close>

definition enter :: "Phase \<Rightarrow> Engine \<Rightarrow> Engine \<times> Notification list" where
  "enter ph e = (e\<lparr>phase := ph\<rparr>, [PhaseChanged ph])"

text \<open>
  Modelled from the spec: the transitions of section 4.4 (the source of the engine is
  missing). Every transition gives one phase-change notification; entering \<open>Result\<close>
  also gives the result, and the envelope is discarded once the result is computed. An
  action of the user that the current phase does not accept is ignored.
\<close>

fun step :: "MeasurementConfig \<Rightarrow> Thresholds \<Rightarrow> Engine \<Rightarrow> Input \<Rightarrow> Engine \<times> Notification list" where
  "step cfg th e (User StartMeasurement) =
     (if phase e = Idle then enter WaitInflate e else (e, []))"
| "step cfg th e (User CancelMeasurement) =
     (if phase e \<in> {WaitInflate, Deflating, WaitEmptyCuff} then enter Idle e else (e, []))"
| "step cfg th e (User ResetMeasurement) =
     (if phase e = Result then enter Idle e else (e, []))"
| "step cfg th e (Sample pair ev) =
     (case phase e of
        Idle \<Rightarrow> (e, [])
      | WaitInflate \<Rightarrow>
          if pumpUpTarget cfg \<le> lowPass pair then enter Deflating (e\<lparr>envelope := []\<rparr>) else (e, [])
      | Deflating \<Rightarrow>
          let e1 = (case ev of None \<Rightarrow> e | Some p \<Rightarrow> e\<lparr>envelope := envelope e @ [p]\<rparr>)
          in if lowPass pair < nearEmpty th then enter WaitEmptyCuff e1 else (e1, [])
      | WaitEmptyCuff \<Rightarrow>
          if lowPass pair \<le> emptyCuff th
          then let r = estimate cfg (envelope e)
               in (e\<lparr>phase := Result, result := Some r, envelope := []\<rparr>,
                   [PhaseChanged Result, ResultComputed r])
          else (e, [])
      | Result \<Rightarrow> (e, []))"

text \<open>
  Modelled from the spec: the acquisition loop feeding the state machine one input after
  the other and collecting the notifications (the loop's source is missing).
\<close>

fun run :: "MeasurementConfig \<Rightarrow> Thresholds \<Rightarrow> Engine \<Rightarrow> Input list \<Rightarrow> Engine \<times> Notification list" where
  "run cfg th e [] = (e, [])"
| "run cfg th e (x # xs) =
     (let (e1, ns1) = step cfg th e x; (e2, ns2) = run cfg th e1 xs in (e2, ns1 @ ns2))"

text \<open>
  Modelled from the spec: two inputs drive the state machine alike when they are the same
  user action, or samples with the same low-pass value (whatever the high-pass value and
  the detected oscillation).
\<close>

fun sameDrive :: "Input \<Rightarrow> Input \<Rightarrow> bool" where
  "sameDrive (User a) (User b) = (a = b)"
| "sameDrive (Sample p ev) (Sample q ev') = (lowPass p = lowPass q)"
| "sameDrive _ _ = False"

text \<open>Modelled from the spec: the low-pass trend value of an input, if it is a sample.\<close>

fun lowPassOf :: "Input \<Rightarrow> real option" where
  "lowPassOf (Sample p ev) = Some (lowPass p)"
| "lowPassOf (User a) = None"

text \<open>Modelled from the spec: the phases entered, as the phase-change notifications tell.\<close>

fun phaseChanges :: "Notification list \<Rightarrow> Phase list" where
  "phaseChanges [] = []"
| "phaseChanges (PhaseChanged ph # ns) = ph # phaseChanges ns"
| "phaseChanges (ResultComputed r # ns) = phaseChanges ns"

section \<open>Example data\<close>

text \<open>
  The end-to-end scenario of the specification, section 8: \<open>pumpUpTarget = 180\<close>,
  \<open>ratioSBP = 0.55\<close>, \<open>ratioDBP = 0.75\<close>, \<open>minNbrPeaks = 3\<close>, and an envelope of six
  oscillations whose amplitude rises to 10 at 110 mmHg and falls again. The maximum is
  attained twice, at 110 and at 85 mmHg.
\<close>

definition exampleConfig :: MeasurementConfig where
  "exampleConfig = \<lparr>ratioSBP = 0.55, ratioDBP = 0.75, minNbrPeaks = 3, pumpUpTarget = 180\<rparr>"

definition exampleEnvelope :: "EnvelopePoint list" where
  "exampleEnvelope =
     [\<lparr>cuffPressure = 160, oscillationAmplitude = 2\<rparr>,
      \<lparr>cuffPressure = 135, oscillationAmplitude = 6\<rparr>,
      \<lparr>cuffPressure = 110, oscillationAmplitude = 10\<rparr>,
      \<lparr>cuffPressure = 85, oscillationAmplitude = 10\<rparr>,
      \<lparr>cuffPressure = 60, oscillationAmplitude = 7\<rparr>,
      \<lparr>cuffPressure = 35, oscillationAmplitude = 3\<rparr>]"

text \<open>
The same deflation, ended too early: the amplitude never falls to 7.5 below the maximum.
\<close>

definition truncatedEnvelope :: "EnvelopePoint list" where
  "truncatedEnvelope =
     [\<lparr>cuffPressure = 160, oscillationAmplitude = 2\<rparr>,
      \<lparr>cuffPressure = 135, oscillationAmplitude = 6\<rparr>,
      \<lparr>cuffPressure = 110, oscillationAmplitude = 10\<rparr>,
      \<lparr>cuffPressure = 85, oscillationAmplitude = 8\<rparr>]"

definition exampleThresholds :: Thresholds where
  "exampleThresholds = \<lparr>nearEmpty = 20, emptyCuff = 2\<rparr>"

text \<open>
A run of the state machine: two samples below the target, one that reaches it and two
  later samples, the last of them above the target once more; and the same run with other
  high-pass values and other detected oscillations.
\<close>

definition exampleEngine :: Engine where
  "exampleEngine = \<lparr>phase = Idle, envelope = [], result = None\<rparr>"

definition exampleBelow :: "Input list" where
  "exampleBelow =
     [Sample \<lparr>lowPass = 50, highPass = 0.3\<rparr> None,
      Sample \<lparr>lowPass = 120, highPass = - 0.2\<rparr> None]"

definition exampleReach :: Input where
  "exampleReach = Sample \<lparr>lowPass = 181, highPass = 0.1\<rparr> None"

definition exampleAfter :: "Input list" where
  "exampleAfter =
     [Sample \<lparr>lowPass = 150, highPass = 1\<rparr> (Some \<lparr>cuffPressure = 150, oscillationAmplitude = 2\<rparr>),
      Sample \<lparr>lowPass = 185, highPass = 0\<rparr> None]"

definition exampleOtherHighPass :: "Input list" where
  "exampleOtherHighPass =
     [User StartMeasurement,
      Sample \<lparr>lowPass = 50, highPass = 7\<rparr> (Some \<lparr>cuffPressure = 50, oscillationAmplitude = 7\<rparr>),
      Sample \<lparr>lowPass = 120, highPass = - 5\<rparr> None,
      Sample \<lparr>lowPass = 181, highPass = 4\<rparr> None,
      Sample \<lparr>lowPass = 150, highPass = - 3\<rparr> None,
      Sample \<lparr>lowPass = 185, highPass = 9\<rparr> (Some \<lparr>cuffPressure = 185, oscillationAmplitude = 9\<rparr>)]"

text \<open>
A device with one channel and 32-bit samples, timed scan by scan at one scan per
  millisecond; its first read delivers the sample \<open>0x1234\<close>, the second one reports the end
  of the stream.
\<close>

definition exampleCommon :: common_h where
  "exampleCommon = \<lparr>COMEDI_NUM_CHANNEL = 1, COMEDI_RANGE_ID = 0\<rparr>"

definition exampleEnv :: comedi_env where
  "exampleEnv =
     \<lparr>open_ok = True,
      dev_maxdata = 0xFFFFFF,
      dev_range = \<lparr>range_min = 0, range_max = 2\<rparr>,
      dev_n_channels = 16,
      timed_ret = 0,
      timed_cmd = \<lparr>scan_begin_src = TRIG_TIMER, scan_begin_arg = 1000000,
                    convert_src = 0x2, convert_arg = 0,
                    stop_src = 0x20, stop_arg = 2, cmd_chanlist = []\<rparr>,
      command_test = (\<lambda>cmd. (0, cmd)),
      command_ret = (\<lambda>cmd. 0),
      subdev_flags = SDF_LSAMPL,
      uninit_rate = 0\<rparr>"

definition exampleHandler :: ComediHandler where
  "exampleHandler =
     \<lparr>adChannel = 0, maxdata = 0xFFFFFF, crange = \<lparr>range_min = 0, range_max = 2\<rparr>,
      numChannels = 1, chanlist = [0],
      comediCommand = \<lparr>scan_begin_src = TRIG_TIMER, scan_begin_arg = 1000000,
                    convert_src = 0x2, convert_arg = 0,
                    stop_src = TRIG_NONE, stop_arg = 0, cmd_chanlist = [0]\<rparr>,
      sampling_rate = 1000, sigmaBoard = True, readSize = 4\<rparr>"

definition exampleDevice :: device where
  "exampleDevice =
     \<lparr>answers = (\<lambda>k. if k = 0
                     then \<lparr>read_ret = 4, read_buf = (\<lambda>i. if i = 0 then 0x34 else if i = 1 then 0x12 else 0)\<rparr>
                     else \<lparr>read_ret = 0, read_buf = (\<lambda>i. 0)\<rparr>),
      nreads = 0, requested = [], buffer_contents = 4, error_log = []\<rparr>"

text \<open>
The conversion of comedilib for a sample inside the range.
\<close>

definition example_to_phys :: "lsampl_t \<Rightarrow> comedi_range \<Rightarrow> lsampl_t \<Rightarrow> real" where
  "example_to_phys data rng maxd =
     range_min rng + (range_max rng - range_min rng) * (real (unat data) / real (unat maxd))"

section \<open>The sample source: reads, failures and the sampling rate\<close>

lemma readRawSample_eof:
  assumes "read_ret (answers d (nreads d)) = 0"
  shows "readRawSample h d = (Exit (- 1), h,
     d\<lparr>nreads := Suc (nreads d), requested := requested d @ [readSize h],
       error_log := error_log d @ [''Error reading from device: end of acquisition!'']\<rparr>)"
  using assms by (simp add: readRawSample_def sys_read_def)

lemma readRawSample_data:
  assumes "read_ret (answers d (nreads d)) \<noteq> 0"
  shows "readRawSample h d =
    (Return (if sigmaBoard h
             then lsampl_at (read_buf (answers d (nreads d))) (adChannel h)
             else ucast (sampl_at (read_buf (answers d (nreads d))) (adChannel h))),
     h, d\<lparr>nreads := Suc (nreads d), requested := requested d @ [readSize h]\<rparr>)"
  using assms by (simp add: readRawSample_def sys_read_def)

lemma map_outcome_snd: "snd (map_outcome f r) = snd r"
  by (cases r; cases "fst r") (auto simp: map_outcome_def)

lemma getVoltageSample_map:
  "getVoltageSample to_phys h d =
     map_outcome (\<lambda>v. to_phys v (crange h) (maxdata h)) (getRawSample h d)"
proof (cases "read_ret (answers d (nreads d)) = 0")
  case True
  then show ?thesis
    by (simp add: getVoltageSample_def getRawSample_def map_outcome_def readRawSample_eof)
next
  case False
  then show ?thesis
    by (simp add: getVoltageSample_def getRawSample_def map_outcome_def readRawSample_data)
qed

lemma readRawSample_frame:
  "fst (snd (readRawSample h d)) = h"
  "nreads (snd (snd (readRawSample h d))) = Suc (nreads d)"
  "requested (snd (snd (readRawSample h d))) = requested d @ [readSize h]"
  by (simp_all add: readRawSample_def sys_read_def Let_def)

text \<open>
  Claim C4. When the read of the device reports the end of the stream (it returns 0),
  \<^verbatim>\<open>getRawSample\<close> and \<^verbatim>\<open>getVoltageSample\<close> fail fatally: the outcome of the call is
  \<^verbatim>\<open>exit(-1)\<close> instead of a sample, after that one read and with the error written to the
  log, and no later call of a client runs. Any other read gives a sample and no error
  line. The condition that no data is there yet is a different one: \<^verbatim>\<open>getBufferContents\<close>
  reports the buffered count, never exits, does no read and leaves the handler and the
  device as they are, so a caller can poll it again.
\<close>

theorem end_of_stream_is_fatal:
  "(read_ret (answers d (nreads d)) = 0 \<longrightarrow>
      getRawSample h d
        = (Exit (- 1), h,
           d\<lparr>nreads := Suc (nreads d), requested := requested d @ [readSize h],
             error_log := error_log d @ [''Error reading from device: end of acquisition!'']\<rparr>)
    \<and> getVoltageSample to_phys h d
        = (Exit (- 1), h,
           d\<lparr>nreads := Suc (nreads d), requested := requested d @ [readSize h],
             error_log := error_log d @ [''Error reading from device: end of acquisition!'']\<rparr>)
    \<and> run_ops to_phys (OpGetRawSample # ops) h d
        = (Exit (- 1), h,
           d\<lparr>nreads := Suc (nreads d), requested := requested d @ [readSize h],
             error_log := error_log d @ [''Error reading from device: end of acquisition!'']\<rparr>)
    \<and> run_ops to_phys (OpGetVoltageSample # ops) h d
        = (Exit (- 1), h,
           d\<lparr>nreads := Suc (nreads d), requested := requested d @ [readSize h],
             error_log := error_log d @ [''Error reading from device: end of acquisition!'']\<rparr>))
   \<and> (read_ret (answers d (nreads d)) \<noteq> 0 \<longrightarrow>
      (\<exists>v. fst (getRawSample h d) = Return v)
    \<and> (\<exists>v. fst (getVoltageSample to_phys h d) = Return v)
    \<and> error_log (snd (snd (getRawSample h d))) = error_log d
    \<and> error_log (snd (snd (getVoltageSample to_phys h d))) = error_log d)
   \<and> getBufferContents h d = (Return (buffer_contents d), h, d)"
  by (simp add: getVoltageSample_map getRawSample_def map_outcome_def readRawSample_eof
      readRawSample_data getBufferContents_def)

theorem end_of_stream_is_fatal_witness:
  "read_ret (answers (exampleDevice\<lparr>nreads := 1\<rparr>) (nreads (exampleDevice\<lparr>nreads := 1\<rparr>))) = 0
   \<and> fst (getRawSample exampleHandler (exampleDevice\<lparr>nreads := 1\<rparr>)) = Exit (- 1)
   \<and> fst (getVoltageSample example_to_phys exampleHandler (exampleDevice\<lparr>nreads := 1\<rparr>)) = Exit (- 1)
   \<and> run_ops example_to_phys [OpGetVoltageSample, OpGetSamplingRate, OpGetVoltageSample]
        exampleHandler (exampleDevice\<lparr>nreads := 1\<rparr>)
       = (Exit (- 1), exampleHandler,
          exampleDevice\<lparr>nreads := 2, requested := [4],
            error_log := [''Error reading from device: end of acquisition!'']\<rparr>)
   \<and> read_ret (answers exampleDevice (nreads exampleDevice)) \<noteq> 0
   \<and> (\<exists>v. fst (getRawSample exampleHandler exampleDevice) = Return v)
   \<and> (\<exists>v. fst (getVoltageSample example_to_phys exampleHandler exampleDevice) = Return v)
   \<and> getBufferContents exampleHandler exampleDevice = (Return 4, exampleHandler, exampleDevice)"
proof -
  let ?eof = "exampleDevice\<lparr>nreads := 1\<rparr>"
  let ?end = "?eof\<lparr>nreads := Suc (nreads ?eof),
                   requested := requested ?eof @ [readSize exampleHandler],
                   error_log := error_log ?eof @ [''Error reading from device: end of acquisition!'']\<rparr>"
  have a: "read_ret (answers ?eof (nreads ?eof)) = 0" by (simp add: exampleDevice_def)
  have b: "read_ret (answers exampleDevice (nreads exampleDevice)) \<noteq> 0"
    by (simp add: exampleDevice_def)
  have c: "buffer_contents exampleDevice = 4" "requested exampleDevice = []"
    "error_log exampleDevice = []" "readSize exampleHandler = 4"
    by (simp_all add: exampleDevice_def exampleHandler_def)
  note eof = end_of_stream_is_fatal[of ?eof exampleHandler example_to_phys
      "[OpGetSamplingRate, OpGetVoltageSample]"]
  note data = end_of_stream_is_fatal[of exampleDevice exampleHandler example_to_phys "[]"]
  have e1: "getRawSample exampleHandler ?eof = (Exit (- 1), exampleHandler, ?end)"
    using eof a by blast
  have e2: "getVoltageSample example_to_phys exampleHandler ?eof = (Exit (- 1), exampleHandler, ?end)"
    using eof a by blast
  have e3: "run_ops example_to_phys [OpGetVoltageSample, OpGetSamplingRate, OpGetVoltageSample]
        exampleHandler ?eof = (Exit (- 1), exampleHandler, ?end)"
    using eof a by blast
  have d1: "\<exists>v. fst (getRawSample exampleHandler exampleDevice) = Return v"
    using data b by blast
  have d2: "\<exists>v. fst (getVoltageSample example_to_phys exampleHandler exampleDevice) = Return v"
    using data b by blast
  have d3: "getBufferContents exampleHandler exampleDevice
      = (Return (buffer_contents exampleDevice), exampleHandler, exampleDevice)"
    using data by blast
  from a b d1 d2 show ?thesis unfolding e1 e2 e3 d3 by (simp add: c)
qed

text \<open>
  Claim C6. Every call of \<^verbatim>\<open>getRawSample\<close> and of \<^verbatim>\<open>getVoltageSample\<close> does exactly one
  read, of \<^verbatim>\<open>readSize\<close> bytes; the voltage sample is \<^verbatim>\<open>comedi_to_phys\<close>, with the range and
  the \<^verbatim>\<open>maxdata\<close> of the handler, of the raw sample that \<^verbatim>\<open>getRawSample\<close> gives on the same
  device state, which is the sample of the channel decoded from the buffer of that read.
\<close>

theorem one_read_per_sample:
  "nreads (snd (snd (getRawSample h d))) = Suc (nreads d)
   \<and> requested (snd (snd (getRawSample h d))) = requested d @ [readSize h]
   \<and> nreads (snd (snd (getVoltageSample to_phys h d))) = Suc (nreads d)
   \<and> requested (snd (snd (getVoltageSample to_phys h d))) = requested d @ [readSize h]
   \<and> getVoltageSample to_phys h d
       = map_outcome (\<lambda>v. to_phys v (crange h) (maxdata h)) (getRawSample h d)
   \<and> (read_ret (answers d (nreads d)) \<noteq> 0 \<longrightarrow>
        fst (getRawSample h d)
          = Return (if sigmaBoard h
                    then lsampl_at (read_buf (answers d (nreads d))) (adChannel h)
                    else ucast (sampl_at (read_buf (answers d (nreads d))) (adChannel h)))
      \<and> fst (getVoltageSample to_phys h d)
          = Return (to_phys (if sigmaBoard h
                    then lsampl_at (read_buf (answers d (nreads d))) (adChannel h)
                    else ucast (sampl_at (read_buf (answers d (nreads d))) (adChannel h)))
                 (crange h) (maxdata h)))"
proof -
  have raw: "nreads (snd (snd (getRawSample h d))) = Suc (nreads d)"
      "requested (snd (snd (getRawSample h d))) = requested d @ [readSize h]"
    by (simp_all add: getRawSample_def readRawSample_frame)
  have volt: "nreads (snd (snd (getVoltageSample to_phys h d))) = Suc (nreads d)"
      "requested (snd (snd (getVoltageSample to_phys h d))) = requested d @ [readSize h]"
    unfolding getVoltageSample_map map_outcome_snd by (fact raw)+
  have data: "read_ret (answers d (nreads d)) \<noteq> 0 \<longrightarrow>
        fst (getRawSample h d)
          = Return (if sigmaBoard h
                    then lsampl_at (read_buf (answers d (nreads d))) (adChannel h)
                    else ucast (sampl_at (read_buf (answers d (nreads d))) (adChannel h)))
      \<and> fst (getVoltageSample to_phys h d)
          = Return (to_phys (if sigmaBoard h
                    then lsampl_at (read_buf (answers d (nreads d))) (adChannel h)
                    else ucast (sampl_at (read_buf (answers d (nreads d))) (adChannel h)))
                 (crange h) (maxdata h))"
    by (simp add: getVoltageSample_map getRawSample_def readRawSample_data map_outcome_def)
  from raw volt data getVoltageSample_map[of to_phys h d] show ?thesis by blast
qed

theorem one_read_per_sample_witness:
  "read_ret (answers exampleDevice (nreads exampleDevice)) \<noteq> 0
   \<and> nreads (snd (snd (getVoltageSample example_to_phys exampleHandler exampleDevice))) = 1
   \<and> requested (snd (snd (getVoltageSample example_to_phys exampleHandler exampleDevice))) = [4]
   \<and> fst (getRawSample exampleHandler exampleDevice) = Return 0x1234
   \<and> fst (getVoltageSample example_to_phys exampleHandler exampleDevice)
        = Return (example_to_phys 0x1234 \<lparr>range_min = 0, range_max = 2\<rparr> 0xFFFFFF)"
proof -
  have a: "read_ret (answers exampleDevice (nreads exampleDevice)) \<noteq> 0"
    by (simp add: exampleDevice_def)
  have b: "nreads exampleDevice = 0" "requested exampleDevice = []" "readSize exampleHandler = 4"
    "sigmaBoard exampleHandler" "adChannel exampleHandler = 0"
    "crange exampleHandler = \<lparr>range_min = 0, range_max = 2\<rparr>" "maxdata exampleHandler = 0xFFFFFF"
    by (simp_all add: exampleDevice_def exampleHandler_def)
  have c: "lsampl_at (read_buf (answers exampleDevice 0)) 0 = 0x1234"
    by (simp add: exampleDevice_def lsampl_at_def)
  note t = one_read_per_sample[of exampleHandler exampleDevice example_to_phys]
  have t1: "nreads (snd (snd (getVoltageSample example_to_phys exampleHandler exampleDevice)))
      = Suc (nreads exampleDevice)"
    using t by blast
  have t2: "requested (snd (snd (getVoltageSample example_to_phys exampleHandler exampleDevice)))
      = requested exampleDevice @ [readSize exampleHandler]"
    using t by blast
  have t3: "fst (getRawSample exampleHandler exampleDevice)
          = Return (if sigmaBoard exampleHandler
                    then lsampl_at (read_buf (answers exampleDevice (nreads exampleDevice)))
                           (adChannel exampleHandler)
                    else ucast (sampl_at (read_buf (answers exampleDevice (nreads exampleDevice)))
                           (adChannel exampleHandler)))"
    using t a by blast
  have t4: "fst (getVoltageSample example_to_phys exampleHandler exampleDevice)
          = Return (example_to_phys (if sigmaBoard exampleHandler
                    then lsampl_at (read_buf (answers exampleDevice (nreads exampleDevice)))
                           (adChannel exampleHandler)
                    else ucast (sampl_at (read_buf (answers exampleDevice (nreads exampleDevice)))
                           (adChannel exampleHandler)))
                 (crange exampleHandler) (maxdata exampleHandler))"
    using t a by blast
  from a t1 t2 t3 t4 show ?thesis by (simp add: b c)
qed

lemma call_op_frame: "fst (snd (call_op to_phys x h d)) = h"
  by (cases x)
     (simp_all add: map_outcome_snd getSamplingRate_def getBufferContents_def getRawSample_def
        getVoltageSample_map readRawSample_frame)

lemma run_ops_frame: "fst (snd (run_ops to_phys ops h d)) = h"
proof (induction ops arbitrary: d)
  case Nil
  then show ?case by simp
next
  case (Cons x xs)
  obtain o1 h1 d1 where c: "call_op to_phys x h d = (o1, h1, d1)" by (cases "call_op to_phys x h d")
  with call_op_frame[of to_phys x h d] have h1: "h1 = h" by simp
  show ?case using Cons.IH[of d1] by (cases o1) (simp_all add: c h1 map_outcome_snd)
qed

lemma call_op_rate:
  assumes "fst (call_op to_phys x h d) = Return (RateValue r)"
  shows "r = sampling_rate h"
  using assms
  by (cases x)
     (auto simp: map_outcome_def getSamplingRate_def getBufferContents_def split: prod.splits outcome.splits)

lemma run_ops_rates:
  assumes "fst (run_ops to_phys ops h d) = Return vs" "RateValue r \<in> set vs"
  shows "r = sampling_rate h"
  using assms
proof (induction ops arbitrary: d vs)
  case Nil
  then show ?case by simp
next
  case (Cons x xs)
  obtain o1 h1 d1 where c: "call_op to_phys x h d = (o1, h1, d1)" by (cases "call_op to_phys x h d")
  with call_op_frame[of to_phys x h d] have h1: "h1 = h" by simp
  show ?case
  proof (cases o1)
    case (Exit n)
    with Cons.prems c show ?thesis by simp
  next
    case (Return v)
    obtain o2 h2 d2 where r2: "run_ops to_phys xs h d1 = (o2, h2, d2)"
      by (cases "run_ops to_phys xs h d1")
    from Cons.prems(1) c Return h1 r2 obtain ws where ws: "o2 = Return ws" "vs = v # ws"
      by (cases o2) (auto simp: map_outcome_def)
    show ?thesis
    proof (cases "RateValue r = v")
      case True
      with c Return have "fst (call_op to_phys x h d) = Return (RateValue r)" by simp
      then show ?thesis by (rule call_op_rate)
    next
      case False
      with Cons.prems(2) ws have "RateValue r \<in> set ws" by auto
      moreover have "fst (run_ops to_phys xs h d1) = Return ws" using r2 ws by simp
      ultimately show ?thesis using Cons.IH by blast
    qed
  qed
qed

lemma ctor_rate:
  assumes "ComediHandler_ctor c env = Return h"
  shows "sampling_rate h = init_sampling_rate (uninit_rate env) (comediCommand h) (numChannels h)"
  using assms by (auto simp: ComediHandler_ctor_def Let_def split: if_splits)

text \<open>
  Claim C7. The sampling rate is fixed: for a handler that the constructor built, the
  stored rate is the one computed in the constructor, no sequence of calls of
  \<^verbatim>\<open>getSamplingRate\<close>, \<^verbatim>\<open>getBufferContents\<close>, \<^verbatim>\<open>getRawSample\<close> and \<^verbatim>\<open>getVoltageSample\<close>
  changes any member of the handler, and every \<^verbatim>\<open>getSamplingRate\<close> in or after such a
  sequence returns that rate.
\<close>

theorem sampling_rate_fixed:
  "ComediHandler_ctor c env = Return h \<longrightarrow>
     sampling_rate h = init_sampling_rate (uninit_rate env) (comediCommand h) (numChannels h)
   \<and> fst (snd (run_ops to_phys ops h d)) = h
   \<and> getSamplingRate (fst (snd (run_ops to_phys ops h d))) d' = (Return (sampling_rate h), h, d')
   \<and> (\<forall>vs r. fst (run_ops to_phys ops h d) = Return vs \<and> RateValue r \<in> set vs
         \<longrightarrow> r = sampling_rate h)
   \<and> fst (snd (getSamplingRate h d)) = h
   \<and> fst (snd (getBufferContents h d)) = h
   \<and> fst (snd (getRawSample h d)) = h
   \<and> fst (snd (getVoltageSample to_phys h d)) = h"
proof
  assume c: "ComediHandler_ctor c env = Return h"
  have 1: "sampling_rate h = init_sampling_rate (uninit_rate env) (comediCommand h) (numChannels h)"
    using c by (rule ctor_rate)
  have 2: "fst (snd (run_ops to_phys ops h d)) = h" by (rule run_ops_frame)
  have 3: "getSamplingRate (fst (snd (run_ops to_phys ops h d))) d' = (Return (sampling_rate h), h, d')"
    by (simp add: run_ops_frame getSamplingRate_def)
  have 4: "\<forall>vs r. fst (run_ops to_phys ops h d) = Return vs \<and> RateValue r \<in> set vs
         \<longrightarrow> r = sampling_rate h"
    using run_ops_rates by blast
  have 5: "fst (snd (getSamplingRate h d)) = h" "fst (snd (getBufferContents h d)) = h"
    "fst (snd (getRawSample h d)) = h" "fst (snd (getVoltageSample to_phys h d)) = h"
    by (simp_all add: getSamplingRate_def getBufferContents_def getRawSample_def
        getVoltageSample_map map_outcome_snd readRawSample_frame)
  from 1 2 3 4 5 show "sampling_rate h = init_sampling_rate (uninit_rate env) (comediCommand h) (numChannels h)
   \<and> fst (snd (run_ops to_phys ops h d)) = h
   \<and> getSamplingRate (fst (snd (run_ops to_phys ops h d))) d' = (Return (sampling_rate h), h, d')
   \<and> (\<forall>vs r. fst (run_ops to_phys ops h d) = Return vs \<and> RateValue r \<in> set vs
         \<longrightarrow> r = sampling_rate h)
   \<and> fst (snd (getSamplingRate h d)) = h
   \<and> fst (snd (getBufferContents h d)) = h
   \<and> fst (snd (getRawSample h d)) = h
   \<and> fst (snd (getVoltageSample to_phys h d)) = h" by blast
qed

theorem sampling_rate_fixed_witness:
  "ComediHandler_ctor exampleCommon exampleEnv = Return exampleHandler
   \<and> sampling_rate exampleHandler = 1000
   \<and> fst (run_ops example_to_phys
            [OpGetSamplingRate, OpGetBufferContents, OpGetVoltageSample, OpGetSamplingRate]
            exampleHandler exampleDevice)
        = Return [RateValue 1000, CountValue 4, VoltageValue (9320 / 16777215), RateValue 1000]
   \<and> fst (snd (run_ops example_to_phys
            [OpGetSamplingRate, OpGetBufferContents, OpGetVoltageSample, OpGetSamplingRate]
            exampleHandler exampleDevice)) = exampleHandler
   \<and> getSamplingRate (fst (snd (run_ops example_to_phys
            [OpGetSamplingRate, OpGetBufferContents, OpGetVoltageSample, OpGetSamplingRate]
            exampleHandler exampleDevice))) exampleDevice
        = (Return (sampling_rate exampleHandler), exampleHandler, exampleDevice)"
proof -
  let ?ops = "[OpGetSamplingRate, OpGetBufferContents, OpGetVoltageSample, OpGetSamplingRate]"
  have a: "ComediHandler_ctor exampleCommon exampleEnv = Return exampleHandler"
    by (simp add: ComediHandler_ctor_def exampleCommon_def exampleEnv_def exampleHandler_def Let_def
      setup_chanlist_def CR_PACK_def AREF_GROUND_def init_sampling_rate_def TRIG_TIMER_def
      TRIG_NONE_def SDF_LSAMPL_def)
  have b: "sampling_rate exampleHandler = 1000" by (simp add: exampleHandler_def)
  have c: "fst (run_ops example_to_phys ?ops exampleHandler exampleDevice)
        = Return [RateValue 1000, CountValue 4, VoltageValue (9320 / 16777215), RateValue 1000]"
    by (simp add: getVoltageSample_def readRawSample_def sys_read_def
        exampleDevice_def exampleHandler_def lsampl_at_def map_outcome_def getSamplingRate_def
        getBufferContents_def example_to_phys_def)
  from a b c sampling_rate_fixed[of exampleCommon exampleEnv exampleHandler example_to_phys ?ops
      exampleDevice exampleDevice]
  show ?thesis by blast
qed

section \<open>The window: heart rate and buttons\<close>

text \<open>
  Claim C9. \<^verbatim>\<open>eHeartRate\<close> posts two \<^verbatim>\<open>setText\<close> calls, no assertion fails, and once the
  event loop has delivered them the label of the current heart rate and the label of the
  heart rate of the run both show the number formatted from the same value, whatever
  they showed before.
\<close>

theorem eHeartRate_overwrites_both_labels:
  "eHeartRate number_f0 bpm w =
     (Done (),
      w\<lparr>posted := posted w @
         [\<lparr>qc_object = lheartRate, qc_member = ''setText'',
            qc_arg = ''Current heart rate:<br><b>'' @ number_f0 bpm @ ''</b>''\<rparr>,
          \<lparr>qc_object = lHRvalAV, qc_member = ''setText'',
            qc_arg = number_f0 bpm @ '' beats/min''\<rparr>]\<rparr>)
   \<and> label_text (processEvents (snd (eHeartRate number_f0 bpm w))) lheartRate
       = ''Current heart rate:<br><b>'' @ number_f0 bpm @ ''</b>''
   \<and> label_text (processEvents (snd (eHeartRate number_f0 bpm w))) lHRvalAV
       = number_f0 bpm @ '' beats/min''"
  by (simp add: eHeartRate_def invokeMethod_def invokable_def processEvents_def deliver_def)

text \<open>
  Claim C10. The handlers of the buttons Reset and Cancel do the same: each calls
  \<^verbatim>\<open>stopMeasurement\<close> on the process once and changes nothing else. The handler of Start
  differs from them.
\<close>

theorem reset_and_cancel_same_command:
  "clkBtnReset w = clkBtnCancel w
   \<and> clkBtnReset w = w\<lparr>process_calls := process_calls w @ [stopMeasurement]\<rparr>
   \<and> clkBtnCancel w = w\<lparr>process_calls := process_calls w @ [stopMeasurement]\<rparr>
   \<and> clkBtnReset w \<noteq> clkBtnStart w"
proof -
  have "process_calls (clkBtnReset w) \<noteq> process_calls (clkBtnStart w)"
    by (simp add: clkBtnReset_def clkBtnStart_def)
  then have "clkBtnReset w \<noteq> clkBtnStart w" by auto
  then show ?thesis by (simp add: clkBtnReset_def clkBtnCancel_def)
qed

section \<open>The estimation algorithm\<close>

lemma scanMax_inv:
  assumes "best < length pre" "bestAmp = oscillationAmplitude (pre ! best)"
    "\<forall>j<length pre. oscillationAmplitude (pre ! j) \<le> bestAmp" "\<forall>j<best. oscillationAmplitude (pre ! j) < bestAmp"
  shows "scanMax best bestAmp (length pre) ps < length (pre @ ps)
     \<and> (\<forall>j<length (pre @ ps). oscillationAmplitude ((pre @ ps) ! j) \<le> oscillationAmplitude ((pre @ ps) ! scanMax best bestAmp (length pre) ps))
     \<and> (\<forall>j. j < scanMax best bestAmp (length pre) ps \<longrightarrow> oscillationAmplitude ((pre @ ps) ! j) < oscillationAmplitude ((pre @ ps) ! scanMax best bestAmp (length pre) ps))"
  using assms
proof (induction ps arbitrary: pre best bestAmp)
  case Nil
  then show ?case by simp
next
  case (Cons p ps)
  show ?case
  proof (cases "bestAmp < oscillationAmplitude p")
    case True
    have a: "length pre < length (pre @ [p])" by simp
    have b: "oscillationAmplitude p = oscillationAmplitude ((pre @ [p]) ! length pre)" by simp
    have c: "\<forall>j<length (pre @ [p]). oscillationAmplitude ((pre @ [p]) ! j) \<le> oscillationAmplitude p"
      using Cons.prems(3) True by (auto simp: nth_append less_Suc_eq)
    have d: "\<forall>j<length pre. oscillationAmplitude ((pre @ [p]) ! j) < oscillationAmplitude p"
      using Cons.prems(3) True by (auto simp: nth_append)
    from Cons.IH[OF a b c d] True show ?thesis by simp
  next
    case False
    have a: "best < length (pre @ [p])" using Cons.prems(1) by simp
    have b: "bestAmp = oscillationAmplitude ((pre @ [p]) ! best)" using Cons.prems(1,2) by (simp add: nth_append)
    have c: "\<forall>j<length (pre @ [p]). oscillationAmplitude ((pre @ [p]) ! j) \<le> bestAmp"
      using Cons.prems(3) False by (auto simp: nth_append less_Suc_eq)
    have d: "\<forall>j<best. oscillationAmplitude ((pre @ [p]) ! j) < bestAmp"
      using Cons.prems(1,4) by (auto simp: nth_append)
    from Cons.IH[OF a b c d] False show ?thesis by simp
  qed
qed

lemma indexOfMaxAmplitude_first_max:
  assumes "env \<noteq> []"
  shows "\<exists>m<length env. indexOfMaxAmplitude env = Some m
     \<and> (\<forall>j<length env. oscillationAmplitude (env ! j) \<le> oscillationAmplitude (env ! m))
     \<and> (\<forall>j<m. oscillationAmplitude (env ! j) < oscillationAmplitude (env ! m))"
proof -
  from assms obtain p ps where env: "env = p # ps" by (cases env) auto
  have "scanMax 0 (oscillationAmplitude p) (length [p]) ps < length ([p] @ ps)
     \<and> (\<forall>j<length ([p] @ ps). oscillationAmplitude (([p] @ ps) ! j) \<le> oscillationAmplitude (([p] @ ps) ! scanMax 0 (oscillationAmplitude p) (length [p]) ps))
     \<and> (\<forall>j. j < scanMax 0 (oscillationAmplitude p) (length [p]) ps \<longrightarrow> oscillationAmplitude (([p] @ ps) ! j) < oscillationAmplitude (([p] @ ps) ! scanMax 0 (oscillationAmplitude p) (length [p]) ps))"
    by (rule scanMax_inv) auto
  then show ?thesis by (simp add: env indexOfMaxAmplitude_def)
qed

lemma find_rev_take_Some:
  assumes "m < length xs" "find P (rev (take (Suc m) xs)) = Some s"
  shows "\<exists>i\<le>m. s = xs ! i \<and> P (xs ! i) \<and> (\<forall>j. i < j \<and> j \<le> m \<longrightarrow> \<not> P (xs ! j))"
proof -
  let ?ys = "rev (take (Suc m) xs)"
  have len: "length ?ys = Suc m" using assms(1) by simp
  have nth: "\<And>t. t \<le> m \<Longrightarrow> ?ys ! t = xs ! (m - t)"
    using assms(1) by (simp add: rev_nth)
  from assms(2) obtain t where t: "t < length ?ys" "P (?ys ! t)" "s = ?ys ! t" "\<forall>j<t. \<not> P (?ys ! j)"
    unfolding find_Some_iff by blast
  have tm: "t \<le> m" using t(1) len by simp
  have "\<forall>j. m - t < j \<and> j \<le> m \<longrightarrow> \<not> P (xs ! j)"
  proof (intro allI impI)
    fix j assume j: "m - t < j \<and> j \<le> m"
    then have "m - j < t" "m - j \<le> m" by arith+
    with t(4) nth[of "m - j"] have "\<not> P (xs ! (m - (m - j)))" by auto
    with j show "\<not> P (xs ! j)" by simp
  qed
  with t nth[OF tm] show ?thesis by (intro exI[of _ "m - t"]) auto
qed

lemma find_rev_take_None:
  assumes "m < length xs"
  shows "find P (rev (take (Suc m) xs)) = None \<longleftrightarrow> (\<forall>i\<le>m. \<not> P (xs ! i))"
proof -
  have "(\<exists>x\<in>set (take (Suc m) xs). P x) \<longleftrightarrow> (\<exists>i\<le>m. P (xs ! i))"
  proof
    assume "\<exists>x\<in>set (take (Suc m) xs). P x"
    then obtain i where "i < length (take (Suc m) xs)" "P (take (Suc m) xs ! i)"
      by (auto simp: in_set_conv_nth)
    then show "\<exists>i\<le>m. P (xs ! i)" by (intro exI[of _ i]) auto
  next
    assume "\<exists>i\<le>m. P (xs ! i)"
    then obtain i where i: "i \<le> m" "P (xs ! i)" by blast
    then have "take (Suc m) xs ! i \<in> set (take (Suc m) xs)"
      using assms by (intro nth_mem) simp
    with i show "\<exists>x\<in>set (take (Suc m) xs). P x" by auto
  qed
  then show ?thesis unfolding find_None_iff by auto
qed

lemma find_drop_Some:
  assumes "m < length xs" "find P (drop m xs) = Some d"
  shows "\<exists>k. m \<le> k \<and> k < length xs \<and> d = xs ! k \<and> P (xs ! k) \<and> (\<forall>j. m \<le> j \<and> j < k \<longrightarrow> \<not> P (xs ! j))"
proof -
  from assms(2) obtain t where t: "t < length (drop m xs)" "P (drop m xs ! t)" "d = drop m xs ! t"
      "\<forall>j<t. \<not> P (drop m xs ! j)"
    unfolding find_Some_iff by blast
  have "\<forall>j. m \<le> j \<and> j < m + t \<longrightarrow> \<not> P (xs ! j)"
  proof (intro allI impI)
    fix j assume j: "m \<le> j \<and> j < m + t"
    then have "j - m < t" by arith
    with t(4) have "\<not> P (drop m xs ! (j - m))" by blast
    with j assms(1) show "\<not> P (xs ! j)" by simp
  qed
  with t assms(1) show ?thesis by (intro exI[of _ "m + t"]) auto
qed

lemma find_drop_None:
  assumes "m < length xs"
  shows "find P (drop m xs) = None \<longleftrightarrow> (\<forall>k. m \<le> k \<and> k < length xs \<longrightarrow> \<not> P (xs ! k))"
proof -
  have "(\<exists>x\<in>set (drop m xs). P x) \<longleftrightarrow> (\<exists>k. m \<le> k \<and> k < length xs \<and> P (xs ! k))"
  proof
    assume "\<exists>x\<in>set (drop m xs). P x"
    then obtain i where "i < length (drop m xs)" "P (drop m xs ! i)"
      by (auto simp: in_set_conv_nth)
    then show "\<exists>k. m \<le> k \<and> k < length xs \<and> P (xs ! k)"
      using assms by (intro exI[of _ "m + i"]) auto
  next
    assume "\<exists>k. m \<le> k \<and> k < length xs \<and> P (xs ! k)"
    then obtain k where k: "m \<le> k" "k < length xs" "P (xs ! k)" by blast
    then have "drop m xs ! (k - m) \<in> set (drop m xs)"
      by (intro nth_mem) simp
    with k show "\<exists>x\<in>set (drop m xs). P x" by auto
  qed
  then show ?thesis unfolding find_None_iff by auto
qed

lemma estimate_unfold:
  assumes "\<not> int (length env) < minNbrPeaks cfg" "indexOfMaxAmplitude env = Some m"
  shows "estimate cfg env =
    (case (find (\<lambda>p. oscillationAmplitude p \<le> ratioSBP cfg * oscillationAmplitude (env ! m)) (rev (take (Suc m) env)),
           find (\<lambda>p. oscillationAmplitude p \<le> ratioDBP cfg * oscillationAmplitude (env ! m)) (drop m env)) of
       (Some s, Some d) \<Rightarrow> Inr \<lparr>MAP = cuffPressure (env ! m), SBP = cuffPressure s, DBP = cuffPressure d\<rparr>
     | _ \<Rightarrow> Inl RatioCrossingNotFound)"
  using assms by (simp add: estimate_def Let_def)

lemma deflationOrdered_nth:
  assumes "deflationOrdered env" "i \<le> j" "j < length env"
  shows "cuffPressure (env ! j) \<le> cuffPressure (env ! i)"
proof (cases "i = j")
  case True then show ?thesis by simp
next
  case False
  with assms(2) have "i < j" by simp
  with assms(1,3) show ?thesis
    unfolding deflationOrdered_def sorted_wrt_iff_nth_less by blast
qed

text \<open>
  Claim C1. For a sequence with at least \<open>minNbrPeaks\<close> points there is a point of
  maximum amplitude; the algorithm takes the first one (every earlier point has a
  strictly smaller amplitude), and the MAP of a result is its cuff pressure. In a
  sequence ordered by decreasing pressure that is the highest pressure among the points
  of maximum amplitude.
\<close>

theorem estimate_MAP_first_maximum:
  assumes "1 \<le> minNbrPeaks cfg" and "minNbrPeaks cfg \<le> int (length env)"
  shows "\<exists>m<length env. indexOfMaxAmplitude env = Some m
     \<and> (\<forall>j<length env. oscillationAmplitude (env ! j) \<le> oscillationAmplitude (env ! m))
     \<and> (\<forall>j<m. oscillationAmplitude (env ! j) < oscillationAmplitude (env ! m))
     \<and> (\<forall>r. estimate cfg env = Inr r \<longrightarrow> MAP r = cuffPressure (env ! m))
     \<and> (deflationOrdered env \<longrightarrow>
          (\<forall>j<length env. oscillationAmplitude (env ! j) = oscillationAmplitude (env ! m)
              \<longrightarrow> cuffPressure (env ! j) \<le> cuffPressure (env ! m)))"
proof -
  from assms have ne: "env \<noteq> []" by auto
  from indexOfMaxAmplitude_first_max[OF ne] obtain m where m: "m < length env"
      "indexOfMaxAmplitude env = Some m"
      "\<forall>j<length env. oscillationAmplitude (env ! j) \<le> oscillationAmplitude (env ! m)"
      "\<forall>j<m. oscillationAmplitude (env ! j) < oscillationAmplitude (env ! m)"
    by blast
  have big: "\<not> int (length env) < minNbrPeaks cfg" using assms(2) by simp
  have r: "\<forall>r. estimate cfg env = Inr r \<longrightarrow> MAP r = cuffPressure (env ! m)"
    unfolding estimate_unfold[OF big m(2)] by (auto split: option.splits)
  have o: "deflationOrdered env \<longrightarrow>
          (\<forall>j<length env. oscillationAmplitude (env ! j) = oscillationAmplitude (env ! m)
              \<longrightarrow> cuffPressure (env ! j) \<le> cuffPressure (env ! m))"
  proof (intro impI allI)
    fix j assume ord: "deflationOrdered env" and j: "j < length env"
      and eq: "oscillationAmplitude (env ! j) = oscillationAmplitude (env ! m)"
    have "m \<le> j"
    proof (rule ccontr)
      assume "\<not> m \<le> j"
      then have "j < m" by simp
      with m(4) eq show False by auto
    qed
    with ord j show "cuffPressure (env ! j) \<le> cuffPressure (env ! m)"
      by (simp add: deflationOrdered_nth)
  qed
  from m r o show ?thesis by blast
qed

theorem estimate_MAP_first_maximum_witness:
  "1 \<le> minNbrPeaks exampleConfig \<and> minNbrPeaks exampleConfig \<le> int (length exampleEnvelope)
   \<and> deflationOrdered exampleEnvelope
   \<and> estimate exampleConfig exampleEnvelope = Inr \<lparr>MAP = 110, SBP = 160, DBP = 60\<rparr>
   \<and> (\<exists>m<length exampleEnvelope. indexOfMaxAmplitude exampleEnvelope = Some m
     \<and> (\<forall>j<length exampleEnvelope.
           oscillationAmplitude (exampleEnvelope ! j) \<le> oscillationAmplitude (exampleEnvelope ! m))
     \<and> (\<forall>j<m. oscillationAmplitude (exampleEnvelope ! j) < oscillationAmplitude (exampleEnvelope ! m))
     \<and> (\<forall>r. estimate exampleConfig exampleEnvelope = Inr r \<longrightarrow> MAP r = cuffPressure (exampleEnvelope ! m))
     \<and> (deflationOrdered exampleEnvelope \<longrightarrow>
          (\<forall>j<length exampleEnvelope.
              oscillationAmplitude (exampleEnvelope ! j) = oscillationAmplitude (exampleEnvelope ! m)
              \<longrightarrow> cuffPressure (exampleEnvelope ! j) \<le> cuffPressure (exampleEnvelope ! m))))"
proof -
  have h1: "1 \<le> minNbrPeaks exampleConfig" by (simp add: exampleConfig_def)
  have h2: "minNbrPeaks exampleConfig \<le> int (length exampleEnvelope)"
    by (simp add: exampleConfig_def exampleEnvelope_def)
  have h3: "deflationOrdered exampleEnvelope"
    by (simp add: deflationOrdered_def exampleEnvelope_def)
  have h4: "estimate exampleConfig exampleEnvelope = Inr \<lparr>MAP = 110, SBP = 160, DBP = 60\<rparr>"
    by (simp add: estimate_def indexOfMaxAmplitude_def exampleEnvelope_def exampleConfig_def)
  from h1 h2 h3 h4 estimate_MAP_first_maximum[OF h1 h2] show ?thesis by blast
qed

text \<open>
  Claim C2. For a sequence with at least \<open>minNbrPeaks\<close> points and maximum at position
  \<open>m\<close>: in a result, SBP is the cuff pressure of the first point, going from \<open>m\<close> towards
  the start of the deflation (upward in pressure), whose amplitude is at most
  \<open>ratioSBP\<close> times the maximum amplitude, and DBP is the cuff pressure of the first
  point, going from \<open>m\<close> towards the end (downward in pressure), whose amplitude is at
  most \<open>ratioDBP\<close> times the maximum amplitude; in an ordered sequence DBP \<open>\<le>\<close> MAP \<open>\<le>\<close>
  SBP. There is a result whenever both sides have such a point.
\<close>

theorem estimate_SBP_DBP_first_crossings:
  assumes "1 \<le> minNbrPeaks cfg" and "minNbrPeaks cfg \<le> int (length env)"
  shows "\<exists>m<length env. indexOfMaxAmplitude env = Some m
     \<and> (\<forall>r. estimate cfg env = Inr r \<longrightarrow>
          MAP r = cuffPressure (env ! m)
        \<and> (\<exists>i\<le>m. SBP r = cuffPressure (env ! i)
              \<and> oscillationAmplitude (env ! i) \<le> ratioSBP cfg * oscillationAmplitude (env ! m)
              \<and> (\<forall>j. i < j \<and> j \<le> m \<longrightarrow>
                    ratioSBP cfg * oscillationAmplitude (env ! m) < oscillationAmplitude (env ! j)))
        \<and> (\<exists>k. m \<le> k \<and> k < length env \<and> DBP r = cuffPressure (env ! k)
              \<and> oscillationAmplitude (env ! k) \<le> ratioDBP cfg * oscillationAmplitude (env ! m)
              \<and> (\<forall>j. m \<le> j \<and> j < k \<longrightarrow>
                    ratioDBP cfg * oscillationAmplitude (env ! m) < oscillationAmplitude (env ! j)))
        \<and> (deflationOrdered env \<longrightarrow> DBP r \<le> MAP r \<and> MAP r \<le> SBP r))
     \<and> ((\<exists>i\<le>m. oscillationAmplitude (env ! i) \<le> ratioSBP cfg * oscillationAmplitude (env ! m))
        \<and> (\<exists>k. m \<le> k \<and> k < length env
              \<and> oscillationAmplitude (env ! k) \<le> ratioDBP cfg * oscillationAmplitude (env ! m))
        \<longrightarrow> (\<exists>r. estimate cfg env = Inr r))"
proof -
  from assms have ne: "env \<noteq> []" by auto
  from indexOfMaxAmplitude_first_max[OF ne] obtain m where m: "m < length env"
      "indexOfMaxAmplitude env = Some m"
    by blast
  have big: "\<not> int (length env) < minNbrPeaks cfg" using assms(2) by simp
  let ?ts = "ratioSBP cfg * oscillationAmplitude (env ! m)"
  let ?td = "ratioDBP cfg * oscillationAmplitude (env ! m)"
  let ?PS = "\<lambda>p. oscillationAmplitude p \<le> ?ts"
  let ?PD = "\<lambda>p. oscillationAmplitude p \<le> ?td"
  note unf = estimate_unfold[OF big m(2)]
  have a: "\<forall>r. estimate cfg env = Inr r \<longrightarrow>
          MAP r = cuffPressure (env ! m)
        \<and> (\<exists>i\<le>m. SBP r = cuffPressure (env ! i) \<and> ?PS (env ! i)
              \<and> (\<forall>j. i < j \<and> j \<le> m \<longrightarrow> ?ts < oscillationAmplitude (env ! j)))
        \<and> (\<exists>k. m \<le> k \<and> k < length env \<and> DBP r = cuffPressure (env ! k) \<and> ?PD (env ! k)
              \<and> (\<forall>j. m \<le> j \<and> j < k \<longrightarrow> ?td < oscillationAmplitude (env ! j)))
        \<and> (deflationOrdered env \<longrightarrow> DBP r \<le> MAP r \<and> MAP r \<le> SBP r)"
  proof (intro allI impI)
    fix r assume "estimate cfg env = Inr r"
    then obtain s d where s: "find ?PS (rev (take (Suc m) env)) = Some s"
      and d: "find ?PD (drop m env) = Some d"
      and r: "r = \<lparr>MAP = cuffPressure (env ! m), SBP = cuffPressure s, DBP = cuffPressure d\<rparr>"
      unfolding unf by (auto split: option.splits)
    from find_rev_take_Some[OF m(1) s] obtain i where i: "i \<le> m" "s = env ! i" "?PS (env ! i)"
      "\<forall>j. i < j \<and> j \<le> m \<longrightarrow> \<not> ?PS (env ! j)" by blast
    from find_drop_Some[OF m(1) d] obtain k where k: "m \<le> k" "k < length env" "d = env ! k"
      "?PD (env ! k)" "\<forall>j. m \<le> j \<and> j < k \<longrightarrow> \<not> ?PD (env ! j)" by blast
    have 1: "MAP r = cuffPressure (env ! m)" using r by simp
    have 2: "\<exists>i\<le>m. SBP r = cuffPressure (env ! i) \<and> ?PS (env ! i)
              \<and> (\<forall>j. i < j \<and> j \<le> m \<longrightarrow> ?ts < oscillationAmplitude (env ! j))"
      using i r by (intro exI[of _ i]) (auto simp: not_le)
    have 3: "\<exists>k. m \<le> k \<and> k < length env \<and> DBP r = cuffPressure (env ! k) \<and> ?PD (env ! k)
              \<and> (\<forall>j. m \<le> j \<and> j < k \<longrightarrow> ?td < oscillationAmplitude (env ! j))"
      using k r by (intro exI[of _ k]) (auto simp: not_le)
    have 4: "deflationOrdered env \<longrightarrow> DBP r \<le> MAP r \<and> MAP r \<le> SBP r"
    proof
      assume ord: "deflationOrdered env"
      have "cuffPressure (env ! k) \<le> cuffPressure (env ! m)"
        using ord k(1,2) by (simp add: deflationOrdered_nth)
      moreover have "cuffPressure (env ! m) \<le> cuffPressure (env ! i)"
        using ord i(1) m(1) by (simp add: deflationOrdered_nth)
      ultimately show "DBP r \<le> MAP r \<and> MAP r \<le> SBP r" using r i(2) k(3) by simp
    qed
    from 1 2 3 4 show "MAP r = cuffPressure (env ! m)
        \<and> (\<exists>i\<le>m. SBP r = cuffPressure (env ! i) \<and> ?PS (env ! i)
              \<and> (\<forall>j. i < j \<and> j \<le> m \<longrightarrow> ?ts < oscillationAmplitude (env ! j)))
        \<and> (\<exists>k. m \<le> k \<and> k < length env \<and> DBP r = cuffPressure (env ! k) \<and> ?PD (env ! k)
              \<and> (\<forall>j. m \<le> j \<and> j < k \<longrightarrow> ?td < oscillationAmplitude (env ! j)))
        \<and> (deflationOrdered env \<longrightarrow> DBP r \<le> MAP r \<and> MAP r \<le> SBP r)" by blast
  qed
  have b: "(\<exists>i\<le>m. ?PS (env ! i)) \<and> (\<exists>k. m \<le> k \<and> k < length env \<and> ?PD (env ! k))
        \<longrightarrow> (\<exists>r. estimate cfg env = Inr r)"
  proof
    assume h: "(\<exists>i\<le>m. ?PS (env ! i)) \<and> (\<exists>k. m \<le> k \<and> k < length env \<and> ?PD (env ! k))"
    then have "find ?PS (rev (take (Suc m) env)) \<noteq> None"
      unfolding find_rev_take_None[OF m(1)] by blast
    moreover from h have "find ?PD (drop m env) \<noteq> None"
      unfolding find_drop_None[OF m(1)] by blast
    ultimately show "\<exists>r. estimate cfg env = Inr r"
      unfolding unf by (auto split: option.splits)
  qed
  from m a b show ?thesis by blast
qed

theorem estimate_SBP_DBP_first_crossings_witness:
  "1 \<le> minNbrPeaks exampleConfig \<and> minNbrPeaks exampleConfig \<le> int (length exampleEnvelope)
   \<and> deflationOrdered exampleEnvelope
   \<and> indexOfMaxAmplitude exampleEnvelope = Some 2
   \<and> oscillationAmplitude (exampleEnvelope ! 0)
        \<le> ratioSBP exampleConfig * oscillationAmplitude (exampleEnvelope ! 2)
   \<and> oscillationAmplitude (exampleEnvelope ! 4)
        \<le> ratioDBP exampleConfig * oscillationAmplitude (exampleEnvelope ! 2)
   \<and> (\<exists>r. estimate exampleConfig exampleEnvelope = Inr r
        \<and> MAP r = cuffPressure (exampleEnvelope ! 2)
        \<and> (\<exists>i\<le>2. SBP r = cuffPressure (exampleEnvelope ! i)
              \<and> oscillationAmplitude (exampleEnvelope ! i)
                   \<le> ratioSBP exampleConfig * oscillationAmplitude (exampleEnvelope ! 2)
              \<and> (\<forall>j. i < j \<and> j \<le> 2 \<longrightarrow>
                    ratioSBP exampleConfig * oscillationAmplitude (exampleEnvelope ! 2)
                      < oscillationAmplitude (exampleEnvelope ! j)))
        \<and> (\<exists>k. 2 \<le> k \<and> k < length exampleEnvelope \<and> DBP r = cuffPressure (exampleEnvelope ! k)
              \<and> oscillationAmplitude (exampleEnvelope ! k)
                   \<le> ratioDBP exampleConfig * oscillationAmplitude (exampleEnvelope ! 2)
              \<and> (\<forall>j. 2 \<le> j \<and> j < k \<longrightarrow>
                    ratioDBP exampleConfig * oscillationAmplitude (exampleEnvelope ! 2)
                      < oscillationAmplitude (exampleEnvelope ! j)))
        \<and> DBP r \<le> MAP r \<and> MAP r \<le> SBP r)"
proof -
  have h1: "1 \<le> minNbrPeaks exampleConfig" by (simp add: exampleConfig_def)
  have h2: "minNbrPeaks exampleConfig \<le> int (length exampleEnvelope)"
    by (simp add: exampleConfig_def exampleEnvelope_def)
  have h3: "deflationOrdered exampleEnvelope"
    by (simp add: deflationOrdered_def exampleEnvelope_def)
  have h4: "indexOfMaxAmplitude exampleEnvelope = Some 2"
    by (simp add: indexOfMaxAmplitude_def exampleEnvelope_def)
  have h5: "oscillationAmplitude (exampleEnvelope ! 0)
        \<le> ratioSBP exampleConfig * oscillationAmplitude (exampleEnvelope ! 2)"
    by (simp add: exampleEnvelope_def exampleConfig_def)
  have h6: "oscillationAmplitude (exampleEnvelope ! 4)
        \<le> ratioDBP exampleConfig * oscillationAmplitude (exampleEnvelope ! 2)"
    by (simp add: exampleEnvelope_def exampleConfig_def)
  have len: "length exampleEnvelope = 6" by (simp add: exampleEnvelope_def)
  from estimate_SBP_DBP_first_crossings[OF h1 h2] h4
  have a: "\<forall>r. estimate exampleConfig exampleEnvelope = Inr r \<longrightarrow>
          MAP r = cuffPressure (exampleEnvelope ! 2)
        \<and> (\<exists>i\<le>2. SBP r = cuffPressure (exampleEnvelope ! i)
              \<and> oscillationAmplitude (exampleEnvelope ! i)
                   \<le> ratioSBP exampleConfig * oscillationAmplitude (exampleEnvelope ! 2)
              \<and> (\<forall>j. i < j \<and> j \<le> 2 \<longrightarrow>
                    ratioSBP exampleConfig * oscillationAmplitude (exampleEnvelope ! 2)
                      < oscillationAmplitude (exampleEnvelope ! j)))
        \<and> (\<exists>k. 2 \<le> k \<and> k < length exampleEnvelope \<and> DBP r = cuffPressure (exampleEnvelope ! k)
              \<and> oscillationAmplitude (exampleEnvelope ! k)
                   \<le> ratioDBP exampleConfig * oscillationAmplitude (exampleEnvelope ! 2)
              \<and> (\<forall>j. 2 \<le> j \<and> j < k \<longrightarrow>
                    ratioDBP exampleConfig * oscillationAmplitude (exampleEnvelope ! 2)
                      < oscillationAmplitude (exampleEnvelope ! j)))
        \<and> (deflationOrdered exampleEnvelope \<longrightarrow> DBP r \<le> MAP r \<and> MAP r \<le> SBP r)"
    and b: "(\<exists>i\<le>2. oscillationAmplitude (exampleEnvelope ! i)
                 \<le> ratioSBP exampleConfig * oscillationAmplitude (exampleEnvelope ! 2))
        \<and> (\<exists>k. 2 \<le> k \<and> k < length exampleEnvelope
              \<and> oscillationAmplitude (exampleEnvelope ! k)
                 \<le> ratioDBP exampleConfig * oscillationAmplitude (exampleEnvelope ! 2))
        \<longrightarrow> (\<exists>r. estimate exampleConfig exampleEnvelope = Inr r)"
    by auto
  have "\<exists>i\<le>(2::nat). oscillationAmplitude (exampleEnvelope ! i)
                 \<le> ratioSBP exampleConfig * oscillationAmplitude (exampleEnvelope ! 2)"
    using h5 by blast
  moreover have "\<exists>k. 2 \<le> k \<and> k < length exampleEnvelope
              \<and> oscillationAmplitude (exampleEnvelope ! k)
                 \<le> ratioDBP exampleConfig * oscillationAmplitude (exampleEnvelope ! 2)"
    using h6 len by (intro exI[of _ 4]) simp
  ultimately obtain r where r: "estimate exampleConfig exampleEnvelope = Inr r" using b by blast
  with a h3 h1 h2 h4 h5 h6 show ?thesis by blast
qed

text \<open>
  Claim C3. A sequence with fewer than \<open>minNbrPeaks\<close> points gives \<open>InsufficientData\<close>
  (so does a sequence of three points with \<open>minNbrPeaks = 5\<close>). A sequence with at least
  \<open>minNbrPeaks\<close> points gives \<open>RatioCrossingNotFound\<close> when no point at or above the
  maximum reaches the SBP target or no point at or below it reaches the DBP target, and
  a result in every other case.
\<close>

theorem estimate_fails_exactly_on_deficient_input:
  "(int (length env) < minNbrPeaks cfg \<longrightarrow> estimate cfg env = Inl InsufficientData)
   \<and> (minNbrPeaks cfg = 5 \<and> length env = 3 \<longrightarrow> estimate cfg env = Inl InsufficientData)
   \<and> (1 \<le> minNbrPeaks cfg \<and> minNbrPeaks cfg \<le> int (length env) \<longrightarrow>
        (\<exists>m<length env. indexOfMaxAmplitude env = Some m
          \<and> (((\<forall>i\<le>m. ratioSBP cfg * oscillationAmplitude (env ! m) < oscillationAmplitude (env ! i))
               \<or> (\<forall>k. m \<le> k \<and> k < length env \<longrightarrow>
                     ratioDBP cfg * oscillationAmplitude (env ! m) < oscillationAmplitude (env ! k)))
              \<longrightarrow> estimate cfg env = Inl RatioCrossingNotFound)
          \<and> (\<not> ((\<forall>i\<le>m. ratioSBP cfg * oscillationAmplitude (env ! m) < oscillationAmplitude (env ! i))
               \<or> (\<forall>k. m \<le> k \<and> k < length env \<longrightarrow>
                     ratioDBP cfg * oscillationAmplitude (env ! m) < oscillationAmplitude (env ! k)))
              \<longrightarrow> (\<exists>r. estimate cfg env = Inr r))))"
proof (intro conjI impI)
  assume "int (length env) < minNbrPeaks cfg"
  then show "estimate cfg env = Inl InsufficientData" by (simp add: estimate_def)
next
  assume "minNbrPeaks cfg = 5 \<and> length env = 3"
  then show "estimate cfg env = Inl InsufficientData" by (simp add: estimate_def)
next
  assume sz: "1 \<le> minNbrPeaks cfg \<and> minNbrPeaks cfg \<le> int (length env)"
  then have ne: "env \<noteq> []" by auto
  from indexOfMaxAmplitude_first_max[OF ne] obtain m where m: "m < length env"
      "indexOfMaxAmplitude env = Some m"
    by blast
  have big: "\<not> int (length env) < minNbrPeaks cfg" using sz by simp
  let ?ts = "ratioSBP cfg * oscillationAmplitude (env ! m)"
  let ?td = "ratioDBP cfg * oscillationAmplitude (env ! m)"
  let ?PS = "\<lambda>p. oscillationAmplitude p \<le> ?ts"
  let ?PD = "\<lambda>p. oscillationAmplitude p \<le> ?td"
  let ?none = "(\<forall>i\<le>m. ?ts < oscillationAmplitude (env ! i))
               \<or> (\<forall>k. m \<le> k \<and> k < length env \<longrightarrow> ?td < oscillationAmplitude (env ! k))"
  note unf = estimate_unfold[OF big m(2)]
  have sN: "find ?PS (rev (take (Suc m) env)) = None \<longleftrightarrow> (\<forall>i\<le>m. ?ts < oscillationAmplitude (env ! i))"
    unfolding find_rev_take_None[OF m(1)] by (simp add: not_le)
  have dN: "find ?PD (drop m env) = None \<longleftrightarrow>
      (\<forall>k. m \<le> k \<and> k < length env \<longrightarrow> ?td < oscillationAmplitude (env ! k))"
    unfolding find_drop_None[OF m(1)] by (simp add: not_le)
  have a: "?none \<longrightarrow> estimate cfg env = Inl RatioCrossingNotFound"
    unfolding unf sN[symmetric] dN[symmetric] by (auto split: option.splits)
  have b: "\<not> ?none \<longrightarrow> (\<exists>r. estimate cfg env = Inr r)"
    unfolding unf sN[symmetric] dN[symmetric] by (auto split: option.splits)
  from m a b show "\<exists>m<length env. indexOfMaxAmplitude env = Some m
          \<and> (((\<forall>i\<le>m. ratioSBP cfg * oscillationAmplitude (env ! m) < oscillationAmplitude (env ! i))
               \<or> (\<forall>k. m \<le> k \<and> k < length env \<longrightarrow>
                     ratioDBP cfg * oscillationAmplitude (env ! m) < oscillationAmplitude (env ! k)))
              \<longrightarrow> estimate cfg env = Inl RatioCrossingNotFound)
          \<and> (\<not> ((\<forall>i\<le>m. ratioSBP cfg * oscillationAmplitude (env ! m) < oscillationAmplitude (env ! i))
               \<or> (\<forall>k. m \<le> k \<and> k < length env \<longrightarrow>
                     ratioDBP cfg * oscillationAmplitude (env ! m) < oscillationAmplitude (env ! k)))
              \<longrightarrow> (\<exists>r. estimate cfg env = Inr r))" by blast
qed

theorem estimate_fails_exactly_on_deficient_input_witness:
  "int (length (take 3 exampleEnvelope)) < minNbrPeaks (exampleConfig\<lparr>minNbrPeaks := 5\<rparr>)
   \<and> minNbrPeaks (exampleConfig\<lparr>minNbrPeaks := 5\<rparr>) = 5 \<and> length (take 3 exampleEnvelope) = 3
   \<and> estimate (exampleConfig\<lparr>minNbrPeaks := 5\<rparr>) (take 3 exampleEnvelope) = Inl InsufficientData
   \<and> 1 \<le> minNbrPeaks exampleConfig \<and> minNbrPeaks exampleConfig \<le> int (length truncatedEnvelope)
   \<and> indexOfMaxAmplitude truncatedEnvelope = Some 2
   \<and> length truncatedEnvelope = 4
   \<and> ratioDBP exampleConfig * oscillationAmplitude (truncatedEnvelope ! 2)
        < oscillationAmplitude (truncatedEnvelope ! 2)
   \<and> ratioDBP exampleConfig * oscillationAmplitude (truncatedEnvelope ! 2)
        < oscillationAmplitude (truncatedEnvelope ! 3)
   \<and> estimate exampleConfig truncatedEnvelope = Inl RatioCrossingNotFound
   \<and> minNbrPeaks exampleConfig \<le> int (length exampleEnvelope)
   \<and> indexOfMaxAmplitude exampleEnvelope = Some 2
   \<and> oscillationAmplitude (exampleEnvelope ! 0)
        \<le> ratioSBP exampleConfig * oscillationAmplitude (exampleEnvelope ! 2)
   \<and> oscillationAmplitude (exampleEnvelope ! 4)
        \<le> ratioDBP exampleConfig * oscillationAmplitude (exampleEnvelope ! 2)
   \<and> (\<exists>r. estimate exampleConfig exampleEnvelope = Inr r)"
proof -
  let ?cfg5 = "exampleConfig\<lparr>minNbrPeaks := 5\<rparr>"
  let ?env3 = "take 3 exampleEnvelope"
  have a1: "int (length ?env3) < minNbrPeaks ?cfg5" by (simp add: exampleEnvelope_def)
  have a2: "minNbrPeaks ?cfg5 = 5 \<and> length ?env3 = 3" by (simp add: exampleEnvelope_def)
  have a3: "estimate ?cfg5 ?env3 = Inl InsufficientData"
    using estimate_fails_exactly_on_deficient_input[of ?env3 ?cfg5] a2 by blast
  have b1: "1 \<le> minNbrPeaks exampleConfig \<and> minNbrPeaks exampleConfig \<le> int (length truncatedEnvelope)"
    by (simp add: exampleConfig_def truncatedEnvelope_def)
  have b2: "indexOfMaxAmplitude truncatedEnvelope = Some 2"
    by (simp add: indexOfMaxAmplitude_def truncatedEnvelope_def)
  have b3: "length truncatedEnvelope = 4" by (simp add: truncatedEnvelope_def)
  have b4: "ratioDBP exampleConfig * oscillationAmplitude (truncatedEnvelope ! 2)
        < oscillationAmplitude (truncatedEnvelope ! 2)"
    by (simp add: truncatedEnvelope_def exampleConfig_def)
  have b5: "ratioDBP exampleConfig * oscillationAmplitude (truncatedEnvelope ! 2)
        < oscillationAmplitude (truncatedEnvelope ! 3)"
    by (simp add: truncatedEnvelope_def exampleConfig_def)
  have b6: "\<forall>k. 2 \<le> k \<and> k < length truncatedEnvelope \<longrightarrow>
          ratioDBP exampleConfig * oscillationAmplitude (truncatedEnvelope ! 2)
            < oscillationAmplitude (truncatedEnvelope ! k)"
  proof (intro allI impI)
    fix k :: nat assume "2 \<le> k \<and> k < length truncatedEnvelope"
    then have "k = 2 \<or> k = 3" using b3 by auto
    with b4 b5 show "ratioDBP exampleConfig * oscillationAmplitude (truncatedEnvelope ! 2)
            < oscillationAmplitude (truncatedEnvelope ! k)"
      by auto
  qed
  have b7: "estimate exampleConfig truncatedEnvelope = Inl RatioCrossingNotFound"
    using estimate_fails_exactly_on_deficient_input[of truncatedEnvelope exampleConfig] b1 b2 b6
    by auto
  have c1: "minNbrPeaks exampleConfig \<le> int (length exampleEnvelope)"
    by (simp add: exampleConfig_def exampleEnvelope_def)
  have c2: "indexOfMaxAmplitude exampleEnvelope = Some 2"
    by (simp add: indexOfMaxAmplitude_def exampleEnvelope_def)
  have c3: "oscillationAmplitude (exampleEnvelope ! 0)
        \<le> ratioSBP exampleConfig * oscillationAmplitude (exampleEnvelope ! 2)"
    by (simp add: exampleEnvelope_def exampleConfig_def)
  have c4: "oscillationAmplitude (exampleEnvelope ! 4)
        \<le> ratioDBP exampleConfig * oscillationAmplitude (exampleEnvelope ! 2)"
    by (simp add: exampleEnvelope_def exampleConfig_def)
  have c5: "\<not> ((\<forall>i\<le>2. ratioSBP exampleConfig * oscillationAmplitude (exampleEnvelope ! 2)
                   < oscillationAmplitude (exampleEnvelope ! i))
        \<or> (\<forall>k. 2 \<le> k \<and> k < length exampleEnvelope \<longrightarrow>
              ratioDBP exampleConfig * oscillationAmplitude (exampleEnvelope ! 2)
                < oscillationAmplitude (exampleEnvelope ! k)))"
  proof -
    have "\<not> ratioSBP exampleConfig * oscillationAmplitude (exampleEnvelope ! 2)
                   < oscillationAmplitude (exampleEnvelope ! 0)"
      using c3 by simp
    moreover have "2 \<le> (4::nat) \<and> 4 < length exampleEnvelope
       \<and> \<not> ratioDBP exampleConfig * oscillationAmplitude (exampleEnvelope ! 2)
                   < oscillationAmplitude (exampleEnvelope ! 4)"
      using c4 by (simp add: exampleEnvelope_def)
    ultimately show ?thesis by blast
  qed
  have c6: "\<exists>r. estimate exampleConfig exampleEnvelope = Inr r"
    using estimate_fails_exactly_on_deficient_input[of exampleEnvelope exampleConfig] b1 c1 c2 c5
    by auto
  from a1 a2 a3 b1 b2 b3 b4 b5 b7 c1 c2 c3 c4 c6 show ?thesis by blast
qed

section \<open>The state machine\<close>

lemma run_Cons:
  "run cfg th e (x # xs) =
     (fst (run cfg th (fst (step cfg th e x)) xs),
      snd (step cfg th e x) @ snd (run cfg th (fst (step cfg th e x)) xs))"
  by (simp split: prod.splits)

lemma run_append:
  "run cfg th e (xs @ ys) =
     (let (e1, ns1) = run cfg th e xs; (e2, ns2) = run cfg th e1 ys in (e2, ns1 @ ns2))"
  by (induction xs arbitrary: e) (auto simp: Let_def split: prod.splits)

lemma phaseChanges_append: "phaseChanges (xs @ ys) = phaseChanges xs @ phaseChanges ys"
  by (induction xs rule: phaseChanges.induct) auto

lemma phaseChanges_set: "ph \<in> set (phaseChanges ns) \<longleftrightarrow> PhaseChanged ph \<in> set ns"
  by (induction ns rule: phaseChanges.induct) auto

lemma step_below_target:
  assumes "phase e = WaitInflate" "lowPassOf x = Some v" "v < pumpUpTarget cfg"
  shows "step cfg th e x = (e, [])"
  using assms by (cases x) auto

lemma run_below_target:
  assumes "phase e = WaitInflate" "\<forall>x\<in>set xs. \<exists>v. lowPassOf x = Some v \<and> v < pumpUpTarget cfg"
  shows "run cfg th e xs = (e, [])"
  using assms
proof (induction xs)
  case Nil
  then show ?case by simp
next
  case (Cons x xs)
  then obtain v where "lowPassOf x = Some v" "v < pumpUpTarget cfg" by auto
  with Cons.prems(1) have "step cfg th e x = (e, [])" by (rule step_below_target)
  with Cons show ?case by simp
qed

lemma step_reaches_target:
  assumes "phase e = WaitInflate" "lowPassOf x = Some v" "pumpUpTarget cfg \<le> v"
  shows "step cfg th e x = (e\<lparr>envelope := [], phase := Deflating\<rparr>, [PhaseChanged Deflating])"
  using assms by (cases x) (auto simp: enter_def)

lemma step_sample_after_inflation:
  assumes "phase e \<in> {Deflating, WaitEmptyCuff, Result}" "lowPassOf x \<noteq> None"
  shows "phase (fst (step cfg th e x)) \<in> {Deflating, WaitEmptyCuff, Result}
     \<and> PhaseChanged Deflating \<notin> set (snd (step cfg th e x))
     \<and> PhaseChanged WaitInflate \<notin> set (snd (step cfg th e x))"
  using assms by (cases x) (auto simp: enter_def Let_def split: Phase.splits option.splits)

lemma run_samples_after_inflation:
  assumes "phase e \<in> {Deflating, WaitEmptyCuff, Result}" "\<forall>x\<in>set xs. lowPassOf x \<noteq> None"
  shows "phase (fst (run cfg th e xs)) \<in> {Deflating, WaitEmptyCuff, Result}
     \<and> PhaseChanged Deflating \<notin> set (snd (run cfg th e xs))
     \<and> PhaseChanged WaitInflate \<notin> set (snd (run cfg th e xs))"
  using assms
proof (induction xs arbitrary: e)
  case Nil
  then show ?case by simp
next
  case (Cons x xs)
  obtain e1 ns1 where s: "step cfg th e x = (e1, ns1)" by (cases "step cfg th e x")
  obtain e2 ns2 where r: "run cfg th e1 xs = (e2, ns2)" by (cases "run cfg th e1 xs")
  from step_sample_after_inflation[of e x cfg th] Cons.prems s
  have 1: "phase e1 \<in> {Deflating, WaitEmptyCuff, Result}" "PhaseChanged Deflating \<notin> set ns1"
    "PhaseChanged WaitInflate \<notin> set ns1" by auto
  from Cons.IH[OF 1(1)] Cons.prems(2) r
  have 2: "phase e2 \<in> {Deflating, WaitEmptyCuff, Result}" "PhaseChanged Deflating \<notin> set ns2"
    "PhaseChanged WaitInflate \<notin> set ns2" by auto
  from 1 2 s r show ?case by simp
qed

lemma step_sameDrive:
  assumes "sameDrive x y" "phase e1 = phase e2"
  shows "phase (fst (step cfg th e1 x)) = phase (fst (step cfg th e2 y))
     \<and> phaseChanges (snd (step cfg th e1 x)) = phaseChanges (snd (step cfg th e2 y))"
proof (cases x)
  case (Sample p ev)
  with assms(1) obtain q ev' where y: "y = Sample q ev'" and lp: "lowPass p = lowPass q"
    by (cases y) auto
  show ?thesis using assms(2) lp unfolding Sample y
    by (cases "phase e2")
       (auto simp: enter_def Let_def split: option.splits)
next
  case (User a)
  with assms(1) have y: "y = User a" by (cases y) auto
  show ?thesis using assms(2) unfolding User y
    by (cases a) (auto simp: enter_def)
qed

lemma run_sameDrive:
  assumes "list_all2 sameDrive xs ys" "phase e1 = phase e2"
  shows "phase (fst (run cfg th e1 xs)) = phase (fst (run cfg th e2 ys))
     \<and> phaseChanges (snd (run cfg th e1 xs)) = phaseChanges (snd (run cfg th e2 ys))"
  using assms
proof (induction xs ys arbitrary: e1 e2 rule: list_all2_induct)
  case Nil
  then show ?case by simp
next
  case (Cons x xs y ys)
  obtain a na where sa: "step cfg th e1 x = (a, na)" by (cases "step cfg th e1 x")
  obtain b nb where sb: "step cfg th e2 y = (b, nb)" by (cases "step cfg th e2 y")
  from step_sameDrive[OF Cons.hyps(1) Cons.prems, of cfg th] sa sb
  have 1: "phase a = phase b" "phaseChanges na = phaseChanges nb" by auto
  from Cons.IH[OF 1(1)] 1(2) sa sb show ?case
    unfolding run_Cons by (simp add: phaseChanges_append)
qed

text \<open>
  Claim C5. From \<open>Idle\<close>, \<open>startMeasurement\<close> enters \<open>WaitInflate\<close>. As long as every
  sample has a low-pass value below \<open>pumpUpTarget\<close> the phase stays \<open>WaitInflate\<close> and
  nothing is notified. The first sample that reaches the target enters \<open>Deflating\<close>, and
  whatever samples follow, \<open>Deflating\<close> is entered exactly once in the run. The phases
  and the phase changes of two runs are the same when their inputs agree in the user
  actions and the low-pass values: the high-pass values and the detected oscillations
  do not matter.
\<close>

theorem inflation_transition:
  "(phase e = Idle \<longrightarrow>
      step cfg th e (User StartMeasurement) = (e\<lparr>phase := WaitInflate\<rparr>, [PhaseChanged WaitInflate]))
   \<and> (phase e = Idle \<and> (\<forall>x\<in>set xs. \<exists>v. lowPassOf x = Some v \<and> v < pumpUpTarget cfg) \<longrightarrow>
      run cfg th e (User StartMeasurement # xs)
        = (e\<lparr>phase := WaitInflate\<rparr>, [PhaseChanged WaitInflate]))
   \<and> (phase e = Idle \<and> (\<forall>x\<in>set xs. \<exists>v. lowPassOf x = Some v \<and> v < pumpUpTarget cfg)
        \<and> lowPassOf y = Some w \<and> pumpUpTarget cfg \<le> w \<and> (\<forall>z\<in>set zs. lowPassOf z \<noteq> None) \<longrightarrow>
      run cfg th e (User StartMeasurement # xs @ [y])
        = (e\<lparr>envelope := [], phase := Deflating\<rparr>, [PhaseChanged WaitInflate, PhaseChanged Deflating])
      \<and> count_list (phaseChanges (snd (run cfg th e (User StartMeasurement # xs @ y # zs)))) Deflating = 1
      \<and> phase (fst (run cfg th e (User StartMeasurement # xs @ y # zs)))
          \<in> {Deflating, WaitEmptyCuff, Result})
   \<and> (list_all2 sameDrive us vs \<and> phase e = phase e' \<longrightarrow>
      phase (fst (run cfg th e us)) = phase (fst (run cfg th e' vs))
      \<and> phaseChanges (snd (run cfg th e us)) = phaseChanges (snd (run cfg th e' vs)))"
proof (intro conjI impI)
  assume "phase e = Idle"
  then show "step cfg th e (User StartMeasurement) = (e\<lparr>phase := WaitInflate\<rparr>, [PhaseChanged WaitInflate])"
    by (simp add: enter_def)
next
  assume h: "phase e = Idle \<and> (\<forall>x\<in>set xs. \<exists>v. lowPassOf x = Some v \<and> v < pumpUpTarget cfg)"
  let ?w = "e\<lparr>phase := WaitInflate\<rparr>"
  from h have "run cfg th ?w xs = (?w, [])" by (simp add: run_below_target)
  with h show "run cfg th e (User StartMeasurement # xs) = (?w, [PhaseChanged WaitInflate])"
    by (simp add: enter_def)
next
  assume h: "phase e = Idle \<and> (\<forall>x\<in>set xs. \<exists>v. lowPassOf x = Some v \<and> v < pumpUpTarget cfg)
        \<and> lowPassOf y = Some w \<and> pumpUpTarget cfg \<le> w \<and> (\<forall>z\<in>set zs. lowPassOf z \<noteq> None)"
  let ?w = "e\<lparr>phase := WaitInflate\<rparr>"
  let ?d = "e\<lparr>envelope := [], phase := Deflating\<rparr>"
  from h have start: "step cfg th e (User StartMeasurement) = (?w, [PhaseChanged WaitInflate])"
    by (simp add: enter_def)
  from h have pre: "run cfg th ?w xs = (?w, [])" by (simp add: run_below_target)
  from h have "step cfg th ?w y = (?w\<lparr>envelope := [], phase := Deflating\<rparr>, [PhaseChanged Deflating])"
    by (simp add: step_reaches_target)
  then have st: "step cfg th ?w y = (?d, [PhaseChanged Deflating])" by simp
  have one: "run cfg th ?w (xs @ [y]) = (?d, [PhaseChanged Deflating])"
    by (simp add: run_append pre st)
  have all: "run cfg th ?w (xs @ y # zs) =
      (fst (run cfg th ?d zs), PhaseChanged Deflating # snd (run cfg th ?d zs))"
    by (simp add: run_append pre st split: prod.splits)
  have post: "phase (fst (run cfg th ?d zs)) \<in> {Deflating, WaitEmptyCuff, Result}
     \<and> PhaseChanged Deflating \<notin> set (snd (run cfg th ?d zs))"
    using run_samples_after_inflation[of ?d zs cfg th] h by simp
  have none: "count_list (phaseChanges (snd (run cfg th ?d zs))) Deflating = 0"
    using post by (simp add: count_list_0_iff phaseChanges_set)
  show "run cfg th e (User StartMeasurement # xs @ [y])
        = (?d, [PhaseChanged WaitInflate, PhaseChanged Deflating])"
    using start one by simp
  show "count_list (phaseChanges (snd (run cfg th e (User StartMeasurement # xs @ y # zs)))) Deflating = 1"
    using start all none by simp
  show "phase (fst (run cfg th e (User StartMeasurement # xs @ y # zs)))
          \<in> {Deflating, WaitEmptyCuff, Result}"
    using start all post by simp
next
  assume h: "list_all2 sameDrive us vs \<and> phase e = phase e'"
  with run_sameDrive[of us vs e e' cfg th]
  show "phase (fst (run cfg th e us)) = phase (fst (run cfg th e' vs))"
    and "phaseChanges (snd (run cfg th e us)) = phaseChanges (snd (run cfg th e' vs))" by auto
qed

theorem inflation_transition_witness:
  "phase exampleEngine = Idle
   \<and> map lowPassOf exampleBelow = [Some 50, Some 120]
   \<and> lowPassOf exampleReach = Some 181
   \<and> map lowPassOf exampleAfter = [Some 150, Some 185]
   \<and> pumpUpTarget exampleConfig = 180
   \<and> list_all2 sameDrive (User StartMeasurement # exampleBelow @ exampleReach # exampleAfter)
        exampleOtherHighPass
   \<and> run exampleConfig exampleThresholds exampleEngine (User StartMeasurement # exampleBelow)
        = (exampleEngine\<lparr>phase := WaitInflate\<rparr>, [PhaseChanged WaitInflate])
   \<and> run exampleConfig exampleThresholds exampleEngine
          (User StartMeasurement # exampleBelow @ [exampleReach])
        = (exampleEngine\<lparr>envelope := [], phase := Deflating\<rparr>,
           [PhaseChanged WaitInflate, PhaseChanged Deflating])
   \<and> count_list (phaseChanges (snd (run exampleConfig exampleThresholds exampleEngine
          (User StartMeasurement # exampleBelow @ exampleReach # exampleAfter)))) Deflating = 1
   \<and> phase (fst (run exampleConfig exampleThresholds exampleEngine
          (User StartMeasurement # exampleBelow @ exampleReach # exampleAfter)))
       = phase (fst (run exampleConfig exampleThresholds exampleEngine exampleOtherHighPass))
   \<and> phaseChanges (snd (run exampleConfig exampleThresholds exampleEngine
          (User StartMeasurement # exampleBelow @ exampleReach # exampleAfter)))
       = phaseChanges (snd (run exampleConfig exampleThresholds exampleEngine exampleOtherHighPass))"
proof -
  have a: "phase exampleEngine = Idle" by (simp add: exampleEngine_def)
  have b1: "map lowPassOf exampleBelow = [Some 50, Some 120]" by (simp add: exampleBelow_def)
  have b2: "map lowPassOf exampleAfter = [Some 150, Some 185]" by (simp add: exampleAfter_def)
  have b3: "pumpUpTarget exampleConfig = 180" by (simp add: exampleConfig_def)
  have b: "\<forall>x\<in>set exampleBelow. \<exists>v. lowPassOf x = Some v \<and> v < pumpUpTarget exampleConfig"
    by (simp add: exampleBelow_def exampleConfig_def)
  have c: "lowPassOf exampleReach = Some 181 \<and> pumpUpTarget exampleConfig \<le> 181"
    by (simp add: exampleReach_def exampleConfig_def)
  have d: "\<forall>z\<in>set exampleAfter. lowPassOf z \<noteq> None" by (simp add: exampleAfter_def)
  have e: "list_all2 sameDrive (User StartMeasurement # exampleBelow @ exampleReach # exampleAfter)
        exampleOtherHighPass"
    by (simp add: exampleBelow_def exampleReach_def exampleAfter_def exampleOtherHighPass_def)
  from a b c d e b1 b2 b3
    inflation_transition[of exampleEngine exampleConfig exampleThresholds exampleBelow exampleReach
      181 exampleAfter "User StartMeasurement # exampleBelow @ exampleReach # exampleAfter"
      exampleOtherHighPass exampleEngine]
  show ?thesis by blast
qed

end
